theory Spec2Isabelle
  imports Main
begin

section \<open>Data model of \<open>transcribe_videos.py\<close>\<close>

text \<open>
  The script talks to four collaborators: the YouTube Data API (\<open>search().list\<close> and
  \<open>videos().list\<close>), the transcript service, the language detector and the file system.
  Each of them is an oracle of the environment that answers a request in the current
  world; every API call, every write and every \<open>logging\<close> line is appended to the world's
  event log, so that what the script did can be read off afterwards. What pandas makes of
  a CSV file when it reads it back is an oracle as well.

  Exceptions are values. Everything the script catches with \<open>except Exception\<close> is an
  \<open>exn\<close>; \<open>HttpError\<close> carries \<open>e.resp.status\<close>.
\<close>

datatype exn = HttpError nat | Exception string

text \<open>One entry of a \<open>search().list\<close> response: \<open>v['id']['videoId']\<close> and \<open>v['snippet']\<close>.\<close>

record snippet =
  snippet_title :: string
  snippet_description :: string
  publishedAt :: string
  regionCode :: "string option"

record search_item =
  videoId :: string
  snippet :: snippet

record search_response =
  search_items :: "search_item list"
  nextPageToken :: "string option"

record search_request =
  q :: string
  publishedAfter :: string
  publishedBefore :: string
  maxResults :: nat
  pageToken :: "string option"

text \<open>One entry of a \<open>videos().list\<close> response; the counts arrive as decimal strings.\<close>

record statistics =
  viewCount :: "string option"
  likeCount :: "string option"
  commentCount :: "string option"

record detail =
  detail_id :: string
  detail_statistics :: "statistics option"

text \<open>One caption segment; only \<open>item['text']\<close> is read.\<close>

record segment =
  seg_text :: string

text \<open>
  A value of the \<open>video_id\<close> column. A new record holds a string; \<open>read_csv\<close> types a column
  by its content, so a loaded table may hold integers (a column of digits only) or floats
  (a numeric column with gaps, NaN for a gap; also NaN for an empty cell of a string
  column). A float is given by its \<open>str()\<close>, which is \<open>nan\<close> for NaN.
\<close>

datatype pyval = PyStr string | PyInt int | PyFloat string

text \<open>
  One row of the table. \<open>None\<close> is the missing value (NaN after \<open>read_csv\<close>, \<open>None\<close>
  from \<open>dict.get\<close>). Of a loaded table the script reads the columns \<open>video_id\<close> and
  \<open>transcription\<close> only; a count is kept as the digits written.
\<close>

record video_record =
  video_id :: pyval
  title :: string
  description :: string
  published_at :: string
  view_count :: "string option"
  like_count :: "string option"
  comment_count :: "string option"
  video_url :: string
  region :: string
  transcription :: "string option"
  detected_language :: "string option"

type_synonym table = "video_record list"

record config =
  query :: string
  published_after :: string
  published_before :: string
  max_results_per_page :: nat
  csv_file_path :: string
  batch_size :: nat
  update_existing :: bool
  fetch_transcripts :: bool
  update_transcripts :: bool

definition CONFIG :: config where
  "CONFIG = \<lparr> query = ''sourdough bread baking'',
              published_after = ''2020-03-15T00:00:00Z'',
              published_before = ''2021-04-01T00:00:00Z'',
              max_results_per_page = 50,
              csv_file_path = ''data/scrapped_data.csv'',
              batch_size = 50,
              update_existing = False,
              fetch_transcripts = True,
              update_transcripts = False \<rparr>"

subsection \<open>Events and the world\<close>

datatype level = INFO | ERROR

text \<open>One constructor for each \<open>logging\<close> call of the script, with the values it formats.\<close>

datatype logmsg =
    ApiKeyNotFound
  | ClientInitFailed exn
  | DataSaved string
  | SaveFailed exn
  | BackupSaved string
  | DetailsError exn
  | QuotaExceeded
  | PageProcessed nat nat nat
  | NoMorePages
  | HttpErrorMsg exn
  | UnexpectedError exn
  | TranscriptError string exn
  | ProcessingTranscript nat nat string
  | UpdatingStatistics nat
  | UpdatedStatistics nat
  | NoMissingTranscripts
  | UpdatingTranscripts nat
  | SavedInterim nat
  | UpdatedTranscripts nat
  | LoadedExisting nat
  | SearchingNew
  | NoNewVideos
  | ProcessingNew nat
  | AddedNew nat nat
  | MainError exn

datatype event =
    SearchCall search_request "exn + search_response"
  | VideosCall "string list" "exn + detail list"
  | TranscriptCall string "exn + segment list"
  | DetectCall string "exn + string"
  | CsvWrite string table bool
  | Log level logmsg

record world =
  files :: "string \<rightharpoonup> table"
  clock :: nat
  events :: "event list"

text \<open>
  The environment: what each collaborator answers to a request made in a given world
  (so an answer may depend on the time and on everything that happened before), whether
  a write to a path succeeds, whether \<open>os.makedirs(d, exist_ok=True)\<close> raises, and what
  \<open>pd.read_csv\<close> returns for a file that holds a written table: the table with its columns
  typed anew, or an exception.
\<close>

record env =
  api_key :: "string option"
  search_list :: "world \<Rightarrow> search_request \<Rightarrow> exn + search_response"
  videos_list :: "world \<Rightarrow> string list \<Rightarrow> exn + detail list"
  get_transcript :: "world \<Rightarrow> string \<Rightarrow> exn + segment list"
  detect_language :: "world \<Rightarrow> string \<Rightarrow> exn + string"
  csv_writable :: "world \<Rightarrow> string \<Rightarrow> bool"
  makedirs :: "world \<Rightarrow> string \<Rightarrow> exn + unit"
  read_csv :: "table \<Rightarrow> exn + table"

definition emit :: "event \<Rightarrow> world \<Rightarrow> world" where
  "emit ev w = w\<lparr>events := events w @ [ev]\<rparr>"

definition logging_info :: "logmsg \<Rightarrow> world \<Rightarrow> world" where
  "logging_info m w = emit (Log INFO m) w"

definition logging_error :: "logmsg \<Rightarrow> world \<Rightarrow> world" where
  "logging_error m w = emit (Log ERROR m) w"

text \<open>\<open>time.sleep(n)\<close>: the clock moves on by \<open>n\<close> seconds.\<close>

definition sleep :: "nat \<Rightarrow> world \<Rightarrow> world" where
  "sleep n w = w\<lparr>clock := clock w + n\<rparr>"

subsection \<open>Strings\<close>

text \<open>\<open>sep.join(xs)\<close>.\<close>

fun join :: "string \<Rightarrow> string list \<Rightarrow> string" where
  "join sep [] = []"
| "join sep [x] = x"
| "join sep (x # y # ys) = x @ sep @ join sep (y # ys)"

text \<open>\<open>str(n)\<close> of a non-negative integer.\<close>

fun str_of_nat :: "nat \<Rightarrow> string" where
  "str_of_nat n =
     (if n < 10 then [''0123456789'' ! n]
      else str_of_nat (n div 10) @ [''0123456789'' ! (n mod 10)])"

declare str_of_nat.simps [simp del]

definition str_of_int :: "int \<Rightarrow> string" where
  "str_of_int i = (if i < 0 then CHR ''-'' # str_of_nat (nat (- i)) else str_of_nat (nat i))"

text \<open>\<open>str(v)\<close>, which is also what an f-string makes of \<open>v\<close>.\<close>

fun py_str :: "pyval \<Rightarrow> string" where
  "py_str (PyStr s) = s"
| "py_str (PyInt i) = str_of_int i"
| "py_str (PyFloat s) = s"

text \<open>\<open>bool(v)\<close>: the empty string and the zeros are false, NaN is true.\<close>

fun py_truthy :: "pyval \<Rightarrow> bool" where
  "py_truthy (PyStr s) = (s \<noteq> [])"
| "py_truthy (PyInt i) = (i \<noteq> 0)"
| "py_truthy (PyFloat s) = (s \<noteq> ''0.0'' \<and> s \<noteq> ''-0.0'')"

text \<open>\<open>os.path.dirname(p)\<close> for POSIX paths.\<close>

definition dirname :: "string \<Rightarrow> string" where
  "dirname p =
     (let head = rev (dropWhile (\<lambda>c. c \<noteq> CHR ''/'') (rev p))
      in if head \<noteq> [] \<and> \<not> list_all (\<lambda>c. c = CHR ''/'') head
         then rev (dropWhile (\<lambda>c. c = CHR ''/'') (rev head))
         else head)"

section \<open>Table store\<close>

text \<open>
  \<open>df.to_csv(path, index=False)\<close>: the write succeeds and the file holds the table, or
  it raises and the file is left as it was. Either way the attempt is in the event log.
\<close>

definition to_csv :: "env \<Rightarrow> table \<Rightarrow> string \<Rightarrow> world \<Rightarrow> (exn + unit) \<times> world" where
  "to_csv env df path w =
     (if csv_writable env w path
      then (Inr (), emit (CsvWrite path df True) (w\<lparr>files := (files w)(path \<mapsto> df)\<rparr>))
      else (Inl (Exception ''OSError''), emit (CsvWrite path df False) w))"

text \<open>
  \<open>load_existing_data\<close>. \<open>os.makedirs\<close> raises for the empty directory name and whenever
  the environment says so; directories are not part of the world otherwise. When the
  file exists the result is what \<open>read_csv\<close> makes of it, which may be an exception; when
  it does not, the result is the empty table with the fixed columns. Nothing here is
  inside a \<open>try\<close>.
\<close>

definition load_existing_data :: "env \<Rightarrow> string \<Rightarrow> world \<Rightarrow> exn + table" where
  "load_existing_data env csv_file w =
     (case (if dirname csv_file = [] then Inl (Exception ''FileNotFoundError'')
            else makedirs env w (dirname csv_file)) of
        Inl e \<Rightarrow> Inl e
      | Inr _ \<Rightarrow>
          (case files w csv_file of
             Some stored \<Rightarrow> read_csv env stored
           | None \<Rightarrow> Inr []))"

text \<open>
  \<open>save_data\<close>: the handler of the first write makes a second write, to the backup path;
  that second write is outside every \<open>try\<close>, so what it raises leaves \<open>save_data\<close>.
\<close>

definition backup_path :: "string \<Rightarrow> nat \<Rightarrow> string" where
  "backup_path csv_file t = csv_file @ ''.backup.'' @ str_of_nat t @ ''.csv''"

definition save_data :: "env \<Rightarrow> table \<Rightarrow> string \<Rightarrow> world \<Rightarrow> (exn + unit) \<times> world" where
  "save_data env df csv_file w =
     (case to_csv env df csv_file w of
        (Inr _, w1) \<Rightarrow> (Inr (), logging_info (DataSaved csv_file) w1)
      | (Inl e, w1) \<Rightarrow>
          (let w2 = logging_error (SaveFailed e) w1;
               backup_file = backup_path csv_file (clock w2)
           in case to_csv env df backup_file w2 of
                (Inr _, w3) \<Rightarrow> (Inr (), logging_info (BackupSaved backup_file) w3)
              | (Inl e2, w3) \<Rightarrow> (Inl e2, w3)))"

section \<open>Transcript fetcher\<close>

text \<open>
  \<open>get_transcript_and_language\<close>. The outer \<open>try\<close> covers the request and the join; the
  inner bare \<open>except\<close> covers the detection only.
\<close>

definition get_transcript_and_language ::
  "env \<Rightarrow> string \<Rightarrow> world \<Rightarrow> (exn + string \<times> string) \<times> world" where
  "get_transcript_and_language env vid w =
     (if vid = [] then (Inr (''Video Error'', ''unknown''), w)
      else
        (let r = get_transcript env w vid;
             w1 = emit (TranscriptCall vid r) w
         in case r of
              Inl e \<Rightarrow>
                (Inr (''Video Error'', ''unknown''), logging_error (TranscriptError vid e) w1)
            | Inr transcript_list \<Rightarrow>
                (let full_transcript = join '' '' (map seg_text transcript_list);
                     d = detect_language env w1 full_transcript;
                     w2 = emit (DetectCall full_transcript d) w1;
                     language = (case d of Inl _ \<Rightarrow> ''unknown'' | Inr l \<Rightarrow> l)
                 in (Inr (full_transcript, language), w2))))"

section \<open>Statistics fetcher\<close>

text \<open>
  \<open>','.join(batch)\<close> needs strings: any other item raises \<open>TypeError\<close>. The joined
  identifiers are kept as the list.
\<close>

fun str_items :: "pyval list \<Rightarrow> string list option" where
  "str_items [] = Some []"
| "str_items (PyStr s # vs) = map_option (\<lambda>ss. s # ss) (str_items vs)"
| "str_items (v # vs) = None"

text \<open>
  The loop \<open>for i in range(0, len(video_ids), batch_size)\<close> of \<open>fetch_video_details\<close>,
  from index \<open>i\<close> on. The request is built and executed inside the \<open>try\<close>, and only
  \<open>HttpError\<close> is caught: status 403 breaks out of the loop, any other status goes on with
  the next batch, and every other exception (the \<open>TypeError\<close> of the join among them)
  leaves the function. (\<open>B = 0\<close> cannot reach the loop: \<open>range\<close> raises first, see below.)
\<close>

function fetch_loop ::
  "env \<Rightarrow> nat \<Rightarrow> pyval list \<Rightarrow> nat \<Rightarrow> detail list \<Rightarrow> world \<Rightarrow> (exn + detail list) \<times> world" where
  "fetch_loop env B video_ids i results w =
     (if B = 0 \<or> length video_ids \<le> i then (Inr results, w)
      else
        (case str_items (take B (drop i video_ids)) of
           None \<Rightarrow> (Inl (Exception ''TypeError''), w)
         | Some batch \<Rightarrow>
             (let r = videos_list env w batch;
                  w1 = emit (VideosCall batch r) w
              in case r of
                   Inr items \<Rightarrow>
                     fetch_loop env B video_ids (i + B) (results @ items)
                       (if i + B < length video_ids then sleep 1 w1 else w1)
                 | Inl (HttpError status) \<Rightarrow>
                     (let w2 = logging_error (DetailsError (HttpError status)) w1
                      in if status = 403 then (Inr results, logging_error QuotaExceeded w2)
                         else fetch_loop env B video_ids (i + B) results w2)
                 | Inl (Exception s) \<Rightarrow> (Inl (Exception s), w1))))"
  by pat_completeness auto
termination
  by (relation "measure (\<lambda>(env, B, video_ids, i, results, w). length video_ids - i)") auto

declare fetch_loop.simps [simp del]

definition fetch_video_details ::
  "env \<Rightarrow> config \<Rightarrow> pyval list \<Rightarrow> world \<Rightarrow> (exn + detail list) \<times> world" where
  "fetch_video_details env cfg video_ids w =
     (if video_ids = [] then (Inr [], w)
      else if batch_size cfg = 0 then (Inl (Exception ''ValueError''), w)
      else fetch_loop env (batch_size cfg) video_ids 0 [] w)"

text \<open>The \<open>videos().list\<close> calls of an event log, in order: the batch and its outcome.\<close>

fun video_call :: "event \<Rightarrow> (string list \<times> (exn + detail list)) list" where
  "video_call (VideosCall batch r) = [(batch, r)]"
| "video_call _ = []"

definition video_calls :: "event list \<Rightarrow> (string list \<times> (exn + detail list)) list" where
  "video_calls evs = concat (map video_call evs)"

text \<open>The details a call contributes to \<open>results\<close>.\<close>

fun items_of :: "string list \<times> (exn + detail list) \<Rightarrow> detail list" where
  "items_of (batch, Inr items) = items"
| "items_of (batch, Inl e) = []"

text \<open>The outcomes after which no further batch is requested.\<close>

fun aborts :: "exn + detail list \<Rightarrow> bool" where
  "aborts (Inr items) = False"
| "aborts (Inl (HttpError status)) = (status = 403)"
| "aborts (Inl (Exception s)) = True"

section \<open>Search paginator\<close>

text \<open>
  The \<open>while True\<close> loop of \<open>search_youtube_videos\<close>. It retries without bound, so the
  model counts requests: with \<open>fuel\<close> requests allowed, \<open>None\<close> says that the loop has not
  returned after that many. \<open>existing_video_ids\<close> is a set of Python values, and the test
  \<open>v['id']['videoId'] not in existing_video_ids\<close> looks a string up in it.
\<close>

fun search_loop ::
  "env \<Rightarrow> config \<Rightarrow> pyval set \<Rightarrow> nat \<Rightarrow> search_item list \<Rightarrow> string option \<Rightarrow> nat \<Rightarrow> world
     \<Rightarrow> (search_item list \<times> world) option" where
  "search_loop env cfg existing_video_ids 0 all_videos next_page_token page_count w = None"
| "search_loop env cfg existing_video_ids (Suc fuel) all_videos next_page_token page_count w =
     (let request = \<lparr> q = query cfg,
                       publishedAfter = published_after cfg,
                       publishedBefore = published_before cfg,
                       maxResults = max_results_per_page cfg,
                       pageToken = next_page_token \<rparr>;
          r = search_list env w request;
          w1 = emit (SearchCall request r) w
      in case r of
           Inr response \<Rightarrow>
             (let videos = search_items response;
                  new_videos = filter (\<lambda>v. PyStr (videoId v) \<notin> existing_video_ids) videos;
                  all_videos' = all_videos @ new_videos;
                  page_count' = page_count + 1;
                  w2 = logging_info
                         (PageProcessed page_count' (length new_videos) (length all_videos')) w1;
                  next_page_token' = nextPageToken response
              in if next_page_token' = None \<or> next_page_token' = Some []
                 then Some (all_videos', logging_info NoMorePages w2)
                 else search_loop env cfg existing_video_ids fuel all_videos' next_page_token'
                        page_count' (sleep 1 w2))
         | Inl (HttpError status) \<Rightarrow>
             (if status = 403 then Some (all_videos, logging_error QuotaExceeded w1)
              else search_loop env cfg existing_video_ids fuel all_videos next_page_token
                     page_count (sleep 10 (logging_error (HttpErrorMsg (HttpError status)) w1)))
         | Inl (Exception s) \<Rightarrow>
             search_loop env cfg existing_video_ids fuel all_videos next_page_token
               page_count (sleep 10 (logging_error (UnexpectedError (Exception s)) w1)))"

definition search_youtube_videos ::
  "env \<Rightarrow> config \<Rightarrow> pyval set \<Rightarrow> nat \<Rightarrow> world \<Rightarrow> (search_item list \<times> world) option" where
  "search_youtube_videos env cfg existing_video_ids fuel w =
     search_loop env cfg existing_video_ids fuel [] None 0 w"

text \<open>The entries of the pages that the search endpoint returned, in the order of arrival.\<close>

fun search_page :: "event \<Rightarrow> search_item list" where
  "search_page (SearchCall request (Inr response)) = search_items response"
| "search_page _ = []"

definition search_returned :: "event list \<Rightarrow> search_item list" where
  "search_returned evs = concat (map search_page evs)"

section \<open>Assembling the records of new videos\<close>

text \<open>The lookup dictionary \<open>{v['id']: v for v in detailed_videos}\<close>: a later entry wins.\<close>

definition details_dict :: "detail list \<Rightarrow> (string \<rightharpoonup> detail)" where
  "details_dict detailed_videos = fold (\<lambda>v m. m(detail_id v \<mapsto> v)) detailed_videos Map.empty"

text \<open>
  \<open>video_details.get(video_id, {}).get('statistics', {}).get(key)\<close>, with the key given
  as the field it selects.
\<close>

definition statistics_get ::
  "(string \<rightharpoonup> detail) \<Rightarrow> string \<Rightarrow> (statistics \<Rightarrow> string option) \<Rightarrow> string option" where
  "statistics_get video_details vid key =
     (case video_details vid of
        None \<Rightarrow> None
      | Some details \<Rightarrow>
          (case detail_statistics details of None \<Rightarrow> None | Some st \<Rightarrow> key st))"

definition make_record :: "(string \<rightharpoonup> detail) \<Rightarrow> search_item \<Rightarrow> video_record" where
  "make_record video_details video =
     \<lparr> video_id = PyStr (videoId video),
       title = snippet_title (snippet video),
       description = snippet_description (snippet video),
       published_at = publishedAt (snippet video),
       view_count = statistics_get video_details (videoId video) viewCount,
       like_count = statistics_get video_details (videoId video) likeCount,
       comment_count = statistics_get video_details (videoId video) commentCount,
       video_url = ''https://www.youtube.com/watch?v='' @ videoId video,
       region = (case regionCode (snippet video) of None \<Rightarrow> [] | Some c \<Rightarrow> c),
       transcription = Some [],
       detected_language = Some [] \<rparr>"

text \<open>\<open>enumerate(xs)\<close>.\<close>

definition enumerate_list :: "'a list \<Rightarrow> (nat \<times> 'a) list" where
  "enumerate_list xs = zip [0..<length xs] xs"

text \<open>The loop \<open>for i, video in enumerate(search_results)\<close> of \<open>process_videos\<close>.\<close>

fun records_loop ::
  "env \<Rightarrow> bool \<Rightarrow> (string \<rightharpoonup> detail) \<Rightarrow> nat \<Rightarrow> (nat \<times> search_item) list \<Rightarrow> video_record list
     \<Rightarrow> world \<Rightarrow> (exn + video_record list) \<times> world" where
  "records_loop env include_transcripts video_details n [] records w = (Inr records, w)"
| "records_loop env include_transcripts video_details n ((i, video) # rest) records w =
     (let new_record = make_record video_details video
      in if include_transcripts
         then
           (let w1 = logging_info (ProcessingTranscript (i + 1) n (videoId video)) w
            in case get_transcript_and_language env (videoId video) w1 of
                 (Inl e, w2) \<Rightarrow> (Inl e, w2)
               | (Inr (transcript, language), w2) \<Rightarrow>
                   records_loop env include_transcripts video_details n rest
                     (records @ [new_record\<lparr>transcription := Some transcript,
                                             detected_language := Some language\<rparr>])
                     (sleep 1 w2))
         else records_loop env include_transcripts video_details n rest
                (records @ [new_record]) w)"

definition process_videos ::
  "env \<Rightarrow> config \<Rightarrow> search_item list \<Rightarrow> bool \<Rightarrow> world \<Rightarrow> (exn + video_record list) \<times> world" where
  "process_videos env cfg search_results include_transcripts w =
     (if search_results = [] then (Inr [], w)
      else
        (let video_ids = map (\<lambda>video. PyStr (videoId video)) search_results
         in case fetch_video_details env cfg video_ids w of
              (Inl e, w1) \<Rightarrow> (Inl e, w1)
            | (Inr detailed_videos, w1) \<Rightarrow>
                records_loop env include_transcripts (details_dict detailed_videos)
                  (length search_results) (enumerate_list search_results) [] w1))"

section \<open>Refreshing existing rows\<close>

text \<open>
  \<open>video_id in video_details\<close> for a value of the id column: the keys of the dictionary
  are strings, and no integer or float equals a string.
\<close>

fun in_details :: "(string \<rightharpoonup> detail) \<Rightarrow> pyval \<Rightarrow> bool" where
  "in_details video_details (PyStr s) = (s \<in> dom video_details)"
| "in_details video_details v = False"

definition update_stats_row :: "(string \<rightharpoonup> detail) \<Rightarrow> video_record \<Rightarrow> video_record" where
  "update_stats_row video_details row =
     (if in_details video_details (video_id row)
      then row\<lparr> view_count := statistics_get video_details (py_str (video_id row)) viewCount,
                like_count := statistics_get video_details (py_str (video_id row)) likeCount,
                comment_count :=
                  statistics_get video_details (py_str (video_id row)) commentCount \<rparr>
      else row)"

definition update_existing_stats ::
  "env \<Rightarrow> config \<Rightarrow> table \<Rightarrow> world \<Rightarrow> (exn + table) \<times> world" where
  "update_existing_stats env cfg existing_data w =
     (if existing_data = [] then (Inr existing_data, w)
      else
        (let video_ids = map video_id existing_data;
             w1 = logging_info (UpdatingStatistics (length video_ids)) w
         in case fetch_video_details env cfg video_ids w1 of
              (Inl e, w2) \<Rightarrow> (Inl e, w2)
            | (Inr detailed_videos, w2) \<Rightarrow>
                (let video_details = details_dict detailed_videos;
                     updated_count =
                       length (filter (\<lambda>row. in_details video_details (video_id row))
                                 existing_data)
                 in (Inr (map (update_stats_row video_details) existing_data),
                     logging_info (UpdatedStatistics updated_count) w2))))"

text \<open>
  The rows that \<open>update_missing_transcripts\<close> selects: transcription missing, empty or
  \<open>"Video Error"\<close>.
\<close>

definition transcript_missing :: "video_record \<Rightarrow> bool" where
  "transcript_missing row =
     (transcription row = None \<or> transcription row = Some [] \<or>
      transcription row = Some ''Video Error'')"

text \<open>
  What \<open>get_transcript_and_language\<close> sees of a value of the id column. Its guard
  \<open>not video_id\<close> holds for the empty string and for the zeros; every other value reaches
  the transcript service and the log through its \<open>str()\<close>.
\<close>

definition transcript_arg :: "pyval \<Rightarrow> string" where
  "transcript_arg v = (if py_truthy v then py_str v else [])"

text \<open>
  The loop \<open>for index, row in missing_transcripts.iterrows()\<close>. The table is updated in
  place at the row's index; the index labels are the positions, and a selected index
  is always inside the table. \<open>save_data\<close> is inside no \<open>try\<close> here, so what it raises
  ends the loop.
\<close>

fun transcripts_loop ::
  "env \<Rightarrow> config \<Rightarrow> nat \<Rightarrow> (nat \<times> video_record) list \<Rightarrow> nat \<Rightarrow> table \<Rightarrow> world
     \<Rightarrow> (exn + table \<times> nat) \<times> world" where
  "transcripts_loop env cfg n [] updated_count existing_data w =
     (Inr (existing_data, updated_count), w)"
| "transcripts_loop env cfg n ((index, row) # rest) updated_count existing_data w =
     (let w1 = logging_info
                 (ProcessingTranscript (updated_count + 1) n (py_str (video_id row))) w
      in case get_transcript_and_language env (transcript_arg (video_id row)) w1 of
           (Inl e, w2) \<Rightarrow> (Inl e, w2)
         | (Inr (transcript, language), w2) \<Rightarrow>
             (let existing_data' =
                    existing_data[index := (existing_data ! index)
                                    \<lparr>transcription := Some transcript,
                                     detected_language := Some language\<rparr>];
                  updated_count' = updated_count + 1
              in if updated_count' mod 10 = 0
                 then
                   (case save_data env existing_data' (csv_file_path cfg) w2 of
                      (Inl e, w3) \<Rightarrow> (Inl e, w3)
                    | (Inr _, w3) \<Rightarrow>
                        transcripts_loop env cfg n rest updated_count' existing_data'
                          (sleep 1 (logging_info (SavedInterim updated_count') w3)))
                 else transcripts_loop env cfg n rest updated_count' existing_data'
                        (sleep 1 w2)))"

definition update_missing_transcripts ::
  "env \<Rightarrow> config \<Rightarrow> table \<Rightarrow> world \<Rightarrow> (exn + table) \<times> world" where
  "update_missing_transcripts env cfg existing_data w =
     (if existing_data = [] then (Inr existing_data, w)
      else
        (let missing_transcripts =
               filter (\<lambda>(index, row). transcript_missing row) (enumerate_list existing_data)
         in if missing_transcripts = []
            then (Inr existing_data, logging_info NoMissingTranscripts w)
            else
              (let w1 = logging_info (UpdatingTranscripts (length missing_transcripts)) w
               in case transcripts_loop env cfg (length missing_transcripts)
                         missing_transcripts 0 existing_data w1 of
                    (Inl e, w2) \<Rightarrow> (Inl e, w2)
                  | (Inr (existing_data', updated_count), w2) \<Rightarrow>
                      (Inr existing_data', logging_info (UpdatedTranscripts updated_count) w2))))"

section \<open>Orchestration\<close>

text \<open>\<open>get_api_key\<close>: a missing or empty key is logged and raised as \<open>ValueError\<close>.\<close>

definition get_api_key :: "env \<Rightarrow> world \<Rightarrow> (exn + string) \<times> world" where
  "get_api_key env w =
     (case api_key env of
        None \<Rightarrow> (Inl (Exception ''Missing API key''), logging_error ApiKeyNotFound w)
      | Some k \<Rightarrow>
          (if k = [] then (Inl (Exception ''Missing API key''), logging_error ApiKeyNotFound w)
           else (Inr k, w)))"

text \<open>\<open>initialize_youtube_client\<close> logs what was raised and raises it again.\<close>

definition initialize_youtube_client :: "env \<Rightarrow> world \<Rightarrow> (exn + string) \<times> world" where
  "initialize_youtube_client env w =
     (case get_api_key env w of
        (Inl e, w1) \<Rightarrow> (Inl e, logging_error (ClientInitFailed e) w1)
      | (Inr k, w1) \<Rightarrow> (Inr k, w1))"

text \<open>Lines 309 to 311 of \<open>main\<close>: the optional refresh of the statistics, then a save.\<close>

definition main_update_existing ::
  "env \<Rightarrow> config \<Rightarrow> table \<Rightarrow> world \<Rightarrow> (exn + table) \<times> world" where
  "main_update_existing env cfg existing_data w =
     (if update_existing cfg \<and> existing_data \<noteq> []
      then
        (case update_existing_stats env cfg existing_data w of
           (Inl e, w1) \<Rightarrow> (Inl e, w1)
         | (Inr existing_data', w1) \<Rightarrow>
             (case save_data env existing_data' (csv_file_path cfg) w1 of
                (Inl e, w2) \<Rightarrow> (Inl e, w2)
              | (Inr _, w2) \<Rightarrow> (Inr existing_data', w2)))
      else (Inr existing_data, w))"

text \<open>Lines 314 to 316 of \<open>main\<close>: the optional backfill of the transcripts, then a save.\<close>

definition main_update_transcripts ::
  "env \<Rightarrow> config \<Rightarrow> table \<Rightarrow> world \<Rightarrow> (exn + table) \<times> world" where
  "main_update_transcripts env cfg existing_data w =
     (if update_transcripts cfg \<and> existing_data \<noteq> []
      then
        (case update_missing_transcripts env cfg existing_data w of
           (Inl e, w1) \<Rightarrow> (Inl e, w1)
         | (Inr existing_data', w1) \<Rightarrow>
             (case save_data env existing_data' (csv_file_path cfg) w1 of
                (Inl e, w2) \<Rightarrow> (Inl e, w2)
              | (Inr _, w2) \<Rightarrow> (Inr existing_data', w2)))
      else (Inr existing_data, w))"

text \<open>Lines 318 to 338 of \<open>main\<close>: search, assemble the new records, append and save.\<close>

definition main_search_and_append ::
  "env \<Rightarrow> config \<Rightarrow> nat \<Rightarrow> pyval set \<Rightarrow> table \<Rightarrow> world \<Rightarrow> ((exn + table) \<times> world) option" where
  "main_search_and_append env cfg fuel existing_video_ids existing_data w =
     (case search_youtube_videos env cfg existing_video_ids fuel (logging_info SearchingNew w) of
        None \<Rightarrow> None
      | Some (search_results, w1) \<Rightarrow>
          (if search_results = [] then Some (Inr existing_data, logging_info NoNewVideos w1)
           else
             (case process_videos env cfg search_results (fetch_transcripts cfg)
                     (logging_info (ProcessingNew (length search_results)) w1) of
                (Inl e, w2) \<Rightarrow> Some (Inl e, w2)
              | (Inr video_records, w2) \<Rightarrow>
                  (if video_records \<noteq> []
                   then
                     (let combined_data = existing_data @ video_records
                      in case save_data env combined_data (csv_file_path cfg) w2 of
                           (Inl e, w3) \<Rightarrow> Some (Inl e, w3)
                         | (Inr _, w3) \<Rightarrow>
                             Some (Inr combined_data,
                                   logging_info (AddedNew (length video_records)
                                                   (length combined_data)) w3))
                   else Some (Inr existing_data, w2)))))"

text \<open>The body of the \<open>try\<close> of \<open>main\<close>.\<close>

definition main_body ::
  "env \<Rightarrow> config \<Rightarrow> nat \<Rightarrow> world \<Rightarrow> ((exn + table) \<times> world) option" where
  "main_body env cfg fuel w =
     (case initialize_youtube_client env w of
        (Inl e, w0) \<Rightarrow> Some (Inl e, w0)
      | (Inr youtube, w0) \<Rightarrow>
          (case load_existing_data env (csv_file_path cfg) w0 of
             Inl e \<Rightarrow> Some (Inl e, w0)
           | Inr existing_data \<Rightarrow>
               (let existing_video_ids = set (map video_id existing_data);
                    w1 = logging_info (LoadedExisting (length existing_data)) w0
                in case main_update_existing env cfg existing_data w1 of
                     (Inl e, w2) \<Rightarrow> Some (Inl e, w2)
                   | (Inr existing_data1, w2) \<Rightarrow>
                       (case main_update_transcripts env cfg existing_data1 w2 of
                          (Inl e, w3) \<Rightarrow> Some (Inl e, w3)
                        | (Inr existing_data2, w3) \<Rightarrow>
                            main_search_and_append env cfg fuel existing_video_ids
                              existing_data2 w3))))"

text \<open>
  \<open>main\<close>: the table, or \<open>None\<close> when an exception reached the handler; the outer
  \<open>option\<close> is \<open>None\<close> while the search loop has not returned.
\<close>

definition main :: "env \<Rightarrow> config \<Rightarrow> nat \<Rightarrow> world \<Rightarrow> (table option \<times> world) option" where
  "main env cfg fuel w =
     (case main_body env cfg fuel w of
        None \<Rightarrow> None
      | Some (Inl e, w1) \<Rightarrow> Some (None, logging_error (MainError e) w1)
      | Some (Inr df, w1) \<Rightarrow> Some (Some df, w1))"

section \<open>Auxiliary notions for the statements\<close>

text \<open>
  The consecutive slices of length at most \<open>B\<close> of a list, from index \<open>i\<close> on:
  \<open>xs[i:i+B]\<close>, \<open>xs[i+B:i+2B]\<close>, and so on, \<open>ceil((len(xs) - i) / B)\<close> of them.
\<close>

definition batches_from :: "nat \<Rightarrow> 'a list \<Rightarrow> nat \<Rightarrow> 'a list list" where
  "batches_from B xs i =
     map (\<lambda>k. take B (drop (i + k * B) xs)) [0..<(length xs - i + B - 1) div B]"

text \<open>The answers of the search endpoint in an event log, in order.\<close>

fun search_outcome :: "event \<Rightarrow> (exn + search_response) list" where
  "search_outcome (SearchCall request r) = [r]"
| "search_outcome _ = []"

definition search_outcomes :: "event list \<Rightarrow> (exn + search_response) list" where
  "search_outcomes evs = concat (map search_outcome evs)"

text \<open>
  An answer after which the paginator asks again: a page that names a continuation
  token, or an error other than the exhausted quota. After any other answer (a page
  without token, status 403) it returns.
\<close>

fun continues :: "exn + search_response \<Rightarrow> bool" where
  "continues (Inr response) =
     (nextPageToken response \<noteq> None \<and> nextPageToken response \<noteq> Some [])"
| "continues (Inl (HttpError status)) = (status \<noteq> 403)"
| "continues (Inl (Exception s)) = True"

text \<open>The entries that an answer carries.\<close>

fun page_items :: "exn + search_response \<Rightarrow> search_item list" where
  "page_items (Inr response) = search_items response"
| "page_items (Inl e) = []"

text \<open>The writes that succeeded, in order: the path and the table written.\<close>

fun csv_write :: "event \<Rightarrow> (string \<times> table) list" where
  "csv_write (CsvWrite path df ok) = (if ok then [(path, df)] else [])"
| "csv_write _ = []"

definition csv_writes :: "event list \<Rightarrow> (string \<times> table) list" where
  "csv_writes evs = concat (map csv_write evs)"

text \<open>
  The backfill loop of \<open>update_missing_transcripts\<close> on a table, from the world in which
  the function was called, stopped after the first \<open>m\<close> of the selected rows; and the table
  and the world at that moment.
\<close>

definition backfill_prefix ::
  "env \<Rightarrow> config \<Rightarrow> table \<Rightarrow> world \<Rightarrow> nat \<Rightarrow> (exn + table \<times> nat) \<times> world" where
  "backfill_prefix env cfg existing_data w m =
     (let missing_transcripts =
            filter (\<lambda>(index, row). transcript_missing row) (enumerate_list existing_data)
      in transcripts_loop env cfg (length missing_transcripts) (take m missing_transcripts) 0
           existing_data (logging_info (UpdatingTranscripts (length missing_transcripts)) w))"

definition table_after :: "env \<Rightarrow> config \<Rightarrow> table \<Rightarrow> world \<Rightarrow> nat \<Rightarrow> table" where
  "table_after env cfg existing_data w m =
     (case fst (backfill_prefix env cfg existing_data w m) of
        Inr (df, updated_count) \<Rightarrow> df
      | Inl e \<Rightarrow> existing_data)"

definition world_after :: "env \<Rightarrow> config \<Rightarrow> table \<Rightarrow> world \<Rightarrow> nat \<Rightarrow> world" where
  "world_after env cfg existing_data w m = snd (backfill_prefix env cfg existing_data w m)"

text \<open>The identifiers named by the \<open>Processing transcript for video\<close> lines of a log.\<close>

definition processing_id :: "event \<Rightarrow> string list" where
  "processing_id ev =
     (case ev of
        Log l m \<Rightarrow> (case m of ProcessingTranscript k n vid \<Rightarrow> [vid] | _ \<Rightarrow> [])
      | _ \<Rightarrow> [])"

definition processing_ids :: "event list \<Rightarrow> string list" where
  "processing_ids evs = concat (map processing_id evs)"

subsection \<open>Concrete worlds and environments\<close>

definition world0 :: world where
  "world0 = \<lparr> files = Map.empty, clock = 1600000000, events = [] \<rparr>"

definition no_statistics :: "string \<Rightarrow> detail" where
  "no_statistics vid = \<lparr> detail_id = vid, detail_statistics = None \<rparr>"

text \<open>
  What \<open>read_csv\<close> makes of a stored table, as far as the script can tell: the cells of
  an id column of digits only become integers, and an empty transcription or language
  cell becomes the missing value. The other columns are never read by the script; their
  numbers stay the digits written and their empty cells the empty string or \<open>None\<close>.
\<close>

definition is_digits :: "string \<Rightarrow> bool" where
  "is_digits s = (s \<noteq> [] \<and> list_all (\<lambda>c. c \<in> set ''0123456789'') s)"

definition int_of_digits :: "string \<Rightarrow> int" where
  "int_of_digits s = foldl (\<lambda>n c. 10 * n + int (of_char c) - 48) 0 s"

fun digit_id :: "pyval \<Rightarrow> bool" where
  "digit_id (PyStr s) = is_digits s"
| "digit_id (PyInt i) = True"
| "digit_id (PyFloat s) = False"

fun int_id :: "pyval \<Rightarrow> pyval" where
  "int_id (PyStr s) = PyInt (int_of_digits s)"
| "int_id v = v"

definition empty_cell :: "string option \<Rightarrow> string option" where
  "empty_cell c = (if c = Some [] then None else c)"

definition read_back :: "table \<Rightarrow> table" where
  "read_back stored =
     map (\<lambda>row. row\<lparr>transcription := empty_cell (transcription row),
                     detected_language := empty_cell (detected_language row)\<rparr>)
       (if stored \<noteq> [] \<and> list_all (\<lambda>row. digit_id (video_id row)) stored
        then map (\<lambda>row. row\<lparr>video_id := int_id (video_id row)\<rparr>) stored
        else stored)"

text \<open>
  An environment in which the search finds nothing, every video has details without
  statistics, no video has captions, detection fails, every write succeeds, directories
  can be made and files are read back with their id column typed.
\<close>

definition env0 :: env where
  "env0 = \<lparr> api_key = Some ''KEY'',
            search_list = (\<lambda>w request. Inr \<lparr> search_items = [], nextPageToken = None \<rparr>),
            videos_list = (\<lambda>w batch. Inr (map no_statistics batch)),
            get_transcript = (\<lambda>w vid. Inl (Exception ''TranscriptsDisabled'')),
            detect_language = (\<lambda>w t. Inl (Exception ''LangDetectException'')),
            csv_writable = (\<lambda>w path. True),
            makedirs = (\<lambda>w d. Inr ()),
            read_csv = (\<lambda>stored. Inr (read_back stored)) \<rparr>"

text \<open>Captions exist, detection fails.\<close>

definition env_detect_fails :: env where
  "env_detect_fails =
     env0\<lparr> get_transcript :=
             (\<lambda>w vid. Inr [\<lparr> seg_text = ''hello'' \<rparr>, \<lparr> seg_text = ''world'' \<rparr>]) \<rparr>"

text \<open>The second \<open>videos().list\<close> request of a run meets the exhausted quota.\<close>

definition env_quota_second :: env where
  "env_quota_second =
     env0\<lparr> videos_list := (\<lambda>w batch. if length (video_calls (events w)) = 1
                                       then Inl (HttpError 403)
                                       else Inr (map no_statistics batch)) \<rparr>"

text \<open>No path can be written (a read-only or full disk).\<close>

definition env_read_only :: env where
  "env_read_only = env0\<lparr> csv_writable := (\<lambda>w path. False) \<rparr>"

text \<open>Only the configured path cannot be written.\<close>

definition env_csv_locked :: env where
  "env_csv_locked = env0\<lparr> csv_writable := (\<lambda>w path. path \<noteq> csv_file_path CONFIG) \<rparr>"

definition cfg_batch2 :: config where
  "cfg_batch2 = CONFIG\<lparr>batch_size := 2\<rparr>"

definition five_ids :: "string list" where
  "five_ids = [''a'', ''b'', ''c'', ''d'', ''e'']"

definition mk_item :: "string \<Rightarrow> search_item" where
  "mk_item vid = \<lparr> videoId = vid,
                   snippet = \<lparr> snippet_title = ''Sourdough'', snippet_description = ''Baking'',
                               publishedAt = ''2020-06-01T00:00:00Z'', regionCode = None \<rparr> \<rparr>"

text \<open>
  A search endpoint that answers by a script: its \<open>k\<close>-th answer of a run that starts
  with an empty log is the \<open>k\<close>-th entry. Here: a transient error, two pages that name a
  continuation token, and a last page.
\<close>

definition three_pages :: "(exn + search_response) list" where
  "three_pages =
     [Inl (HttpError 500),
      Inr \<lparr> search_items = [mk_item ''a'', mk_item ''b''], nextPageToken = Some ''T2'' \<rparr>,
      Inr \<lparr> search_items = [mk_item ''c''], nextPageToken = Some ''T3'' \<rparr>,
      Inr \<lparr> search_items = [mk_item ''d'', mk_item ''b''], nextPageToken = None \<rparr>]"

definition env_three_pages :: env where
  "env_three_pages =
     env0\<lparr> search_list :=
             (\<lambda>w request. three_pages ! length (search_outcomes (events w))) \<rparr>"

definition example_row :: "string \<Rightarrow> string option \<Rightarrow> video_record" where
  "example_row vid tr =
     \<lparr> video_id = PyStr vid, title = ''Sourdough'', description = ''Baking'',
       published_at = ''2020-06-01T00:00:00Z'', view_count = Some ''10'',
       like_count = None, comment_count = None,
       video_url = ''https://www.youtube.com/watch?v='' @ vid, region = [],
       transcription = tr, detected_language = None \<rparr>"

definition example_table :: table where
  "example_table = [example_row ''a'' None, example_row ''b'' (Some ''ready''),
                    example_row ''c'' (Some ''Video Error'')]"

definition example_table_backfilled :: table where
  "example_table_backfilled =
     [(example_row ''a'' None)\<lparr>transcription := Some ''hello world'',
                                 detected_language := Some ''unknown''\<rparr>,
      example_row ''b'' (Some ''ready''),
      (example_row ''c'' (Some ''Video Error''))\<lparr>transcription := Some ''hello world'',
                                                  detected_language := Some ''unknown''\<rparr>]"

text \<open>
  The shipped configuration with the backfill switched on, and a table of 25 rows
  without transcripts.
\<close>

definition cfg_backfill :: config where
  "cfg_backfill = CONFIG\<lparr>update_transcripts := True\<rparr>"

definition table25 :: table where
  "table25 = map (\<lambda>k. example_row (CHR ''v'' # str_of_nat k) None) [0..<25]"

text \<open>Two search pages of 50 and 3 entries with 53 different identifiers.\<close>

definition page_one :: "search_item list" where
  "page_one = map (\<lambda>k. mk_item (CHR ''v'' # str_of_nat k)) [0..<50]"

definition page_two :: "search_item list" where
  "page_two = map (\<lambda>k. mk_item (CHR ''v'' # str_of_nat k)) [50..<53]"

definition env_fifty_three :: env where
  "env_fifty_three =
     env0\<lparr> search_list :=
             (\<lambda>w request.
                if pageToken request = None
                then Inr \<lparr> search_items = page_one, nextPageToken = Some ''PAGE2'' \<rparr>
                else Inr \<lparr> search_items = page_two, nextPageToken = None \<rparr>) \<rparr>"

text \<open>Whatever is asked, the statistics endpoint knows the video \<open>a\<close> only.\<close>

definition detail_a :: detail where
  "detail_a = \<lparr> detail_id = ''a'',
                detail_statistics = Some \<lparr> viewCount = Some ''7'', likeCount = Some ''1'',
                                           commentCount = None \<rparr> \<rparr>"

definition env_details_a :: env where
  "env_details_a = env0\<lparr> videos_list := (\<lambda>w batch. Inr [detail_a]) \<rparr>"

text \<open>A stored table whose only row has a failed transcript.\<close>

definition world_video_error :: world where
  "world_video_error =
     \<lparr> files = [csv_file_path CONFIG \<mapsto> [example_row ''c'' (Some ''Video Error'')]],
       clock = 1600000000, events = [] \<rparr>"

text \<open>The shipped configuration with the refresh of the statistics switched on.\<close>

definition cfg_refresh :: config where
  "cfg_refresh = CONFIG\<lparr>update_existing := True\<rparr>"

text \<open>The search finds one video, and the stored table has it already.\<close>

definition env_known :: env where
  "env_known =
     env0\<lparr> search_list :=
             (\<lambda>w request. Inr \<lparr> search_items = [mk_item ''a''], nextPageToken = None \<rparr>) \<rparr>"

definition world_known :: world where
  "world_known =
     \<lparr> files = [csv_file_path CONFIG \<mapsto> [example_row ''a'' (Some ''ready'')]],
       clock = 1600000000, events = [] \<rparr>"

text \<open>
  The search finds the video \<open>12345678901\<close>; the stored table has it, written by an earlier
  run, and its only identifier is made of digits.
\<close>

definition env_digit_id :: env where
  "env_digit_id =
     env0\<lparr> search_list :=
             (\<lambda>w request. Inr \<lparr> search_items = [mk_item ''12345678901''],
                                 nextPageToken = None \<rparr>) \<rparr>"

definition world_digit_id :: world where
  "world_digit_id =
     \<lparr> files = [csv_file_path CONFIG \<mapsto> [example_row ''12345678901'' (Some ''ready'')]],
       clock = 1600000000, events = [] \<rparr>"

section \<open>Properties\<close>

subsection \<open>Event log\<close>

lemma events_emit [simp]: "events (emit ev w) = events w @ [ev]"
  by (simp add: emit_def)

lemma events_logging_info [simp]: "events (logging_info m w) = events w @ [Log INFO m]"
  by (simp add: logging_info_def)

lemma events_logging_error [simp]: "events (logging_error m w) = events w @ [Log ERROR m]"
  by (simp add: logging_error_def)

lemma events_sleep [simp]: "events (sleep n w) = events w"
  by (simp add: sleep_def)

lemma video_calls_Nil [simp]: "video_calls [] = []"
  by (simp add: video_calls_def)

lemma video_calls_Cons [simp]: "video_calls (ev # evs) = video_call ev @ video_calls evs"
  by (simp add: video_calls_def)

lemma video_calls_append [simp]: "video_calls (xs @ ys) = video_calls xs @ video_calls ys"
  by (simp add: video_calls_def)

subsection \<open>Transcript fetcher\<close>

text \<open>
  Claim C2. Whatever the transcript request raises, the fetcher returns the pair
  \<open>("Video Error", "unknown")\<close>; when the request succeeds and the detection raises, it
  returns the segments joined by single spaces, paired with \<open>"unknown"\<close>; and in no case
  does the fetcher itself raise.
\<close>

theorem get_transcript_and_language_failures:
  "(get_transcript env w vid = Inl e \<longrightarrow>
      fst (get_transcript_and_language env vid w) = Inr (''Video Error'', ''unknown''))
   \<and> (vid \<noteq> [] \<and> get_transcript env w vid = Inr segs \<and>
      detect_language env (emit (TranscriptCall vid (Inr segs)) w)
        (join '' '' (map seg_text segs)) = Inl e'
      \<longrightarrow> fst (get_transcript_and_language env vid w) =
            Inr (join '' '' (map seg_text segs), ''unknown''))
   \<and> (\<exists>r. fst (get_transcript_and_language env vid w) = Inr r)"
  by (auto simp add: get_transcript_and_language_def Let_def split: sum.splits)

theorem get_transcript_and_language_failures_witness:
  "get_transcript env0 world0 ''abc'' = Inl (Exception ''TranscriptsDisabled'')
   \<and> fst (get_transcript_and_language env0 ''abc'' world0) = Inr (''Video Error'', ''unknown'')
   \<and> fst (get_transcript_and_language env_detect_fails ''abc'' world0) =
       Inr (''hello world'', ''unknown'')"
  using get_transcript_and_language_failures
          [of env0 world0 "''abc''" "Exception ''TranscriptsDisabled''"]
        get_transcript_and_language_failures
          [of env_detect_fails world0 "''abc''" _
              "[\<lparr> seg_text = ''hello'' \<rparr>, \<lparr> seg_text = ''world'' \<rparr>]"
              "Exception ''LangDetectException''"]
  by (simp add: env0_def env_detect_fails_def)

text \<open>
  Claim C10. For the empty video identifier the fetcher returns the sentinel pair and
  leaves the world as it found it: no transcript request, no detection, no log line.
\<close>

theorem get_transcript_and_language_empty_id:
  "get_transcript_and_language env [] w = (Inr (''Video Error'', ''unknown''), w)"
  by (simp add: get_transcript_and_language_def)

subsection \<open>Table store\<close>

lemma save_data_unfold:
  "save_data env df csv_file w =
     (if csv_writable env w csv_file
      then (Inr (), logging_info (DataSaved csv_file)
              (emit (CsvWrite csv_file df True) (w\<lparr>files := (files w)(csv_file \<mapsto> df)\<rparr>)))
      else
        (let w2 = logging_error (SaveFailed (Exception ''OSError''))
                    (emit (CsvWrite csv_file df False) w);
             backup_file = backup_path csv_file (clock w)
         in if csv_writable env w2 backup_file
            then (Inr (), logging_info (BackupSaved backup_file)
                    (emit (CsvWrite backup_file df True)
                       (w2\<lparr>files := (files w2)(backup_file \<mapsto> df)\<rparr>)))
            else (Inl (Exception ''OSError''), emit (CsvWrite backup_file df False) w2)))"
  by (simp add: save_data_def to_csv_def Let_def logging_error_def logging_info_def emit_def)

text \<open>
  Claim C5, as stated, fails: when neither the configured path nor the backup path can
  be written, \<open>save_data\<close> raises, and no file holds the table.
\<close>

theorem save_data_raises_counterexample:
  "fst (save_data env_read_only [] (csv_file_path CONFIG) world0) = Inl (Exception ''OSError'')
   \<and> files (snd (save_data env_read_only [] (csv_file_path CONFIG) world0))
         (csv_file_path CONFIG) = None
   \<and> files (snd (save_data env_read_only [] (csv_file_path CONFIG) world0))
         (backup_path (csv_file_path CONFIG) (clock world0)) = None"
  by (simp add: save_data_unfold env_read_only_def env0_def world0_def Let_def
        logging_error_def emit_def)

text \<open>
  Claim C5, amended. When the write to the configured path succeeds, \<open>save_data\<close> returns
  and the file holds the table. When it fails, \<open>save_data\<close> writes to the backup path
  \<open>csv_file.backup.<seconds>.csv\<close>: if that write succeeds, \<open>save_data\<close> returns and the
  backup file holds the table; if it fails as well, its exception leaves \<open>save_data\<close> and
  the files are as before.
\<close>

theorem save_data_backup:
  "(let r = save_data env df csv_file w;
        w2 = logging_error (SaveFailed (Exception ''OSError''))
               (emit (CsvWrite csv_file df False) w);
        backup_file = csv_file @ ''.backup.'' @ str_of_nat (clock w) @ ''.csv''
    in (csv_writable env w csv_file \<longrightarrow>
          fst r = Inr () \<and> files (snd r) csv_file = Some df)
     \<and> (\<not> csv_writable env w csv_file \<and> csv_writable env w2 backup_file \<longrightarrow>
          fst r = Inr () \<and> files (snd r) backup_file = Some df)
     \<and> (\<not> csv_writable env w csv_file \<and> \<not> csv_writable env w2 backup_file \<longrightarrow>
          (\<exists>e. fst r = Inl e) \<and> files (snd r) = files w))"
  by (simp add: save_data_unfold Let_def backup_path_def logging_error_def logging_info_def
        emit_def)

theorem save_data_backup_witness:
  "\<not> csv_writable env_csv_locked world0 ''data/scrapped_data.csv''
   \<and> fst (save_data env_csv_locked [] ''data/scrapped_data.csv'' world0) = Inr ()
   \<and> files (snd (save_data env_csv_locked [] ''data/scrapped_data.csv'' world0))
        ''data/scrapped_data.csv.backup.1600000000.csv'' = Some []"
  using save_data_backup [of env_csv_locked "[]" "''data/scrapped_data.csv''" world0]
  by (simp add: Let_def env_csv_locked_def env0_def world0_def CONFIG_def str_of_nat.simps)

subsection \<open>Statistics fetcher\<close>

lemma str_items_strings [simp]: "str_items (map PyStr xs) = Some xs"
  by (induction xs) simp_all

lemma ceil_step:
  fixes B N i :: nat
  assumes "0 < B" "i < N"
  shows "(N - i + B - 1) div B = Suc ((N - (i + B) + B - 1) div B)"
proof -
  define m where "m = N - i - 1"
  have a: "N - i + B - 1 = m + B" using assms by (simp add: m_def)
  have b: "(m + B) div B = Suc (m div B)" using div_add_self2[of B m] assms(1) by simp
  have c: "(N - (i + B) + B - 1) div B = m div B"
  proof (cases "B \<le> m + 1")
    case True
    then have "N - (i + B) + B - 1 = m" using assms by (simp add: m_def)
    then show ?thesis by simp
  next
    case False
    then have "N - (i + B) = 0" "m < B" using assms by (simp_all add: m_def)
    then show ?thesis using assms by simp
  qed
  show ?thesis using a b c by simp
qed

lemma batches_from_done: "0 < B \<Longrightarrow> length xs \<le> i \<Longrightarrow> batches_from B xs i = []"
  by (simp add: batches_from_def)

lemma batches_from_step:
  assumes "0 < B" "i < length xs"
  shows "batches_from B xs i = take B (drop i xs) # batches_from B xs (i + B)"
proof -
  have "batches_from B xs i =
        map (\<lambda>k. take B (drop (i + k * B) xs)) [0..<Suc ((length xs - (i + B) + B - 1) div B)]"
    unfolding batches_from_def using ceil_step[OF assms] by simp
  also have "\<dots> = take B (drop i xs) #
        map (\<lambda>k. take B (drop (i + Suc k * B) xs)) [0..<(length xs - (i + B) + B - 1) div B]"
    by (simp only: map_upt_Suc) simp
  also have "(\<lambda>k. take B (drop (i + Suc k * B) xs)) = (\<lambda>k. take B (drop (i + B + k * B) xs))"
    by (simp add: add.assoc)
  finally show ?thesis by (simp add: batches_from_def)
qed

lemma fetch_loop_batches:
  assumes B: "0 < B" and ok: "\<forall>w b. \<not> aborts (videos_list env w b)"
  shows "map fst (video_calls (events (snd (fetch_loop env B (map PyStr ids) i res w)))) =
         map fst (video_calls (events w)) @ batches_from B ids i"
proof (induction "length ids - i" arbitrary: i res w rule: less_induct)
  case less
  show ?case
  proof (cases "length ids \<le> i")
    case True
    with B show ?thesis by (subst fetch_loop.simps) (simp add: batches_from_done)
  next
    case False
    then have lt: "length ids - (i + B) < length ids - i" using B by simp
    note IH = less[OF lt]
    have step: "batches_from B ids i = take B (drop i ids) # batches_from B ids (i + B)"
      by (rule batches_from_step[OF B]) (use False in simp)
    let ?batch = "take B (drop i ids)"
    have na: "\<not> aborts (videos_list env w ?batch)" using ok by blast
    show ?thesis
    proof (cases "videos_list env w ?batch")
      case (Inr items)
      show ?thesis
        using False B Inr
        by (subst fetch_loop.simps) (simp add: Let_def IH step take_map drop_map)
    next
      case (Inl e)
      then obtain status where e: "e = HttpError status" "status \<noteq> 403"
        using na by (cases e) auto
      show ?thesis
        using False B Inl e
        by (subst fetch_loop.simps) (simp add: Let_def IH step take_map drop_map)
    qed
  qed
qed

lemma concat_chunks:
  "concat (map (\<lambda>k. take B (drop (k * B) xs)) [0..<m]) = take (m * B) xs"
proof (induction m)
  case 0
  show ?case by simp
next
  case (Suc m)
  have "take (m * B) xs @ take B (drop (m * B) xs) = take (m * B + B) xs"
    by (simp add: take_add)
  then show ?case using Suc by (simp add: add.commute)
qed

lemma ceil_covers:
  fixes B N :: nat
  assumes "0 < B"
  shows "N \<le> ((N + B - 1) div B) * B"
proof -
  have "N + B - 1 = ((N + B - 1) div B) * B + (N + B - 1) mod B" by simp
  moreover have "(N + B - 1) mod B < B" using assms by simp
  ultimately show ?thesis by linarith
qed


lemma fetch_loop_calls:
  assumes B: "0 < B"
  shows "\<exists>calls. video_calls (events (snd (fetch_loop env B ids i res w))) =
                  video_calls (events w) @ calls
          \<and> (\<forall>c \<in> set (butlast calls). \<not> aborts (snd c))
          \<and> (case fst (fetch_loop env B ids i res w) of
                Inr res' \<Rightarrow> res' = res @ concat (map items_of calls)
              | Inl e \<Rightarrow> \<forall>c \<in> set calls. snd c \<noteq> Inl (HttpError 403))"
proof (induction "length ids - i" arbitrary: i res w rule: less_induct)
  case less
  show ?case
  proof (cases "length ids \<le> i")
    case True
    then show ?thesis by (subst (1 2) fetch_loop.simps) simp
  next
    case False
    then have lt: "length ids - (i + B) < length ids - i" using B by simp
    show ?thesis
    proof (cases "str_items (take B (drop i ids))")
      case None
      have eq: "fetch_loop env B ids i res w = (Inl (Exception ''TypeError''), w)"
        using False B None by (subst fetch_loop.simps) simp
      show ?thesis
        by (rule exI[of _ "[]"]) (simp add: eq)
    next
      case (Some batch)
      define w1 where "w1 = emit (VideosCall batch (videos_list env w batch)) w"
      have ev1: "events w1 = events w @ [VideosCall batch (videos_list env w batch)]"
        by (simp add: w1_def)
      show ?thesis
      proof (cases "videos_list env w batch")
        case (Inr items)
        define w2 where "w2 = (if i + B < length ids then sleep 1 w1 else w1)"
        have eq: "fetch_loop env B ids i res w = fetch_loop env B ids (i + B) (res @ items) w2"
          using False B Some Inr unfolding w2_def w1_def
          by (subst fetch_loop.simps) (simp add: Let_def)
        from less[OF lt, of "res @ items" w2] obtain calls where
          c: "video_calls (events (snd (fetch_loop env B ids (i + B) (res @ items) w2))) =
                video_calls (events w2) @ calls"
             "\<forall>c \<in> set (butlast calls). \<not> aborts (snd c)"
             "case fst (fetch_loop env B ids (i + B) (res @ items) w2) of
                  Inr res' \<Rightarrow> res' = (res @ items) @ concat (map items_of calls)
                | Inl e \<Rightarrow> \<forall>c \<in> set calls. snd c \<noteq> Inl (HttpError 403)"
          by blast
        have ev: "video_calls (events w2) = video_calls (events w) @ [(batch, Inr items)]"
          using Inr by (simp add: w2_def ev1)
        show ?thesis
          apply (rule exI[of _ "(batch, Inr items) # calls"])
          using c ev by (auto simp add: eq split: sum.splits)
      next
        case (Inl e)
        show ?thesis
        proof (cases e)
          case (Exception s)
          have eq: "fetch_loop env B ids i res w = (Inl (Exception s), w1)"
            using False B Some Inl Exception unfolding w1_def
            by (subst fetch_loop.simps) (simp add: Let_def)
          show ?thesis
            apply (rule exI[of _ "[(batch, Inl (Exception s))]"])
            using Inl Exception by (simp add: eq ev1)
        next
          case (HttpError status)
          define w2 where "w2 = logging_error (DetailsError (HttpError status)) w1"
          have ev: "video_calls (events w2) =
                    video_calls (events w) @ [(batch, Inl (HttpError status))]"
            using Inl HttpError by (simp add: w2_def ev1)
          show ?thesis
          proof (cases "status = 403")
            case True
            have eq: "fetch_loop env B ids i res w = (Inr res, logging_error QuotaExceeded w2)"
              using False B Some Inl HttpError True unfolding w2_def w1_def
              by (subst fetch_loop.simps) (simp add: Let_def)
            show ?thesis
              apply (rule exI[of _ "[(batch, Inl (HttpError status))]"])
              using ev by (simp add: eq)
          next
            case ne: False
            have eq: "fetch_loop env B ids i res w = fetch_loop env B ids (i + B) res w2"
              using False B Some Inl HttpError ne unfolding w2_def w1_def
              by (subst fetch_loop.simps) (simp add: Let_def)
            from less[OF lt, of res w2] obtain calls where
              c: "video_calls (events (snd (fetch_loop env B ids (i + B) res w2))) =
                    video_calls (events w2) @ calls"
                 "\<forall>c \<in> set (butlast calls). \<not> aborts (snd c)"
                 "case fst (fetch_loop env B ids (i + B) res w2) of
                      Inr res' \<Rightarrow> res' = res @ concat (map items_of calls)
                    | Inl e \<Rightarrow> \<forall>c \<in> set calls. snd c \<noteq> Inl (HttpError 403)"
              by blast
            show ?thesis
              apply (rule exI[of _ "(batch, Inl (HttpError status)) # calls"])
              using c ev ne by (auto simp add: eq split: sum.splits)
          qed
        qed
      qed
    qed
  qed
qed

text \<open>
  Claim C3. For a non-empty list of \<open>N\<close> identifiers and a batch size \<open>B > 0\<close>, when no
  request meets the exhausted quota or an exception other than \<open>HttpError\<close>, the
  requests that \<open>fetch_video_details\<close> adds to the log are \<open>ceil(N / B)\<close> batches of at
  most \<open>B\<close> identifiers each, the \<open>k\<close>-th being \<open>video_ids[k*B : k*B + B]\<close>; together they
  are the input, in order.
\<close>

theorem fetch_video_details_batching:
  assumes "video_ids \<noteq> []" and "0 < batch_size cfg"
    and "\<forall>w b. \<not> aborts (videos_list env w b)"
  shows "\<exists>batches.
           map fst (video_calls (events (snd
             (fetch_video_details env cfg (map PyStr video_ids) w)))) =
             map fst (video_calls (events w)) @ batches
         \<and> length batches = (length video_ids + batch_size cfg - 1) div batch_size cfg
         \<and> (\<forall>b \<in> set batches. length b \<le> batch_size cfg)
         \<and> concat batches = video_ids
         \<and> (\<forall>k < length batches.
               batches ! k = take (batch_size cfg) (drop (k * batch_size cfg) video_ids))"
proof -
  let ?B = "batch_size cfg"
  let ?m = "(length video_ids + ?B - 1) div ?B"
  let ?bs = "batches_from ?B video_ids 0"
  have bs: "?bs = map (\<lambda>k. take ?B (drop (k * ?B) video_ids)) [0..<?m]"
    by (simp add: batches_from_def)
  have fv: "fetch_video_details env cfg (map PyStr video_ids) w =
            fetch_loop env ?B (map PyStr video_ids) 0 [] w"
    using assms(1,2) by (simp add: fetch_video_details_def)
  have 1: "map fst (video_calls (events (snd
             (fetch_video_details env cfg (map PyStr video_ids) w)))) =
             map fst (video_calls (events w)) @ ?bs"
    unfolding fv by (rule fetch_loop_batches[OF assms(2,3)])
  have 2: "length ?bs = ?m" by (simp add: bs)
  have 3: "\<forall>b \<in> set ?bs. length b \<le> ?B" by (auto simp add: bs)
  have "concat ?bs = take (?m * ?B) video_ids"
    unfolding bs by (rule concat_chunks)
  then have 4: "concat ?bs = video_ids"
    using ceil_covers[OF assms(2), of "length video_ids"] by simp
  have 5: "\<forall>k < length ?bs. ?bs ! k = take ?B (drop (k * ?B) video_ids)"
    by (simp add: bs)
  from 1 2 3 4 5 show ?thesis by blast
qed

theorem fetch_video_details_batching_witness:
  "five_ids \<noteq> [] \<and> 0 < batch_size cfg_batch2
   \<and> map fst (video_calls (events (snd
         (fetch_video_details env0 cfg_batch2 (map PyStr five_ids) world0)))) =
       [[''a'', ''b''], [''c'', ''d''], [''e'']]"
proof -
  have h: "five_ids \<noteq> []" "0 < batch_size cfg_batch2"
    "\<forall>w b. \<not> aborts (videos_list env0 w b)"
    by (simp_all add: five_ids_def cfg_batch2_def env0_def)
  from fetch_video_details_batching[OF h, of world0] obtain batches where
    b: "map fst (video_calls (events (snd
          (fetch_video_details env0 cfg_batch2 (map PyStr five_ids) world0)))) =
          map fst (video_calls (events world0)) @ batches"
    and len: "length batches = (length five_ids + batch_size cfg_batch2 - 1) div batch_size cfg_batch2"
    and nth: "\<forall>k < length batches.
               batches ! k = take (batch_size cfg_batch2) (drop (k * batch_size cfg_batch2) five_ids)"
    by blast
  have len3: "length batches = 3"
    using len by (simp add: five_ids_def cfg_batch2_def)
  then obtain x y z where xyz: "batches = [x, y, z]"
    by (auto simp add: length_Suc_conv numeral_3_eq_3)
  have "batches ! 0 = [''a'', ''b'']" "batches ! 1 = [''c'', ''d'']" "batches ! 2 = [''e'']"
    using nth len3 by (simp_all add: five_ids_def cfg_batch2_def)
  then have "batches = [[''a'', ''b''], [''c'', ''d''], [''e'']]"
    by (simp add: xyz)
  with b h(1,2) show ?thesis by (simp add: world0_def)
qed

text \<open>
  Claim C4. If a request of the run failed with status 403, it is the last request of
  the run, and \<open>fetch_video_details\<close> returns (it does not raise) the details of the
  requests before it.
\<close>

theorem fetch_video_details_quota:
  assumes "video_calls (events (snd (fetch_video_details env cfg ids w))) =
           video_calls (events w) @ pre @ (b, Inl (HttpError 403)) # post"
  shows "post = [] \<and> fst (fetch_video_details env cfg ids w) = Inr (concat (map items_of pre))"
proof -
  have run: "ids \<noteq> []" "0 < batch_size cfg"
    using assms by (auto simp add: fetch_video_details_def split: if_splits)
  then have fv: "fetch_video_details env cfg ids w = fetch_loop env (batch_size cfg) ids 0 [] w"
    by (simp add: fetch_video_details_def)
  from fetch_loop_calls[OF run(2), of env ids 0 "[]" w] obtain calls where
    c: "video_calls (events (snd (fetch_loop env (batch_size cfg) ids 0 [] w))) =
          video_calls (events w) @ calls"
       "\<forall>c \<in> set (butlast calls). \<not> aborts (snd c)"
       "case fst (fetch_loop env (batch_size cfg) ids 0 [] w) of
            Inr res' \<Rightarrow> res' = [] @ concat (map items_of calls)
          | Inl e \<Rightarrow> \<forall>c \<in> set calls. snd c \<noteq> Inl (HttpError 403)"
    by blast
  have calls: "calls = pre @ (b, Inl (HttpError 403)) # post"
    using assms c(1) by (simp add: fv)
  have post: "post = []"
  proof (rule ccontr)
    assume "post \<noteq> []"
    then have "(b, Inl (HttpError 403)) \<in> set (butlast calls)"
      by (simp add: calls butlast_append)
    with c(2) show False by fastforce
  qed
  have "fst (fetch_loop env (batch_size cfg) ids 0 [] w) = Inr (concat (map items_of pre))"
    using c(3) by (auto simp add: calls post split: sum.splits)
  with post show ?thesis by (simp add: fv)
qed


theorem fetch_video_details_quota_witness:
  "video_calls (events (snd (fetch_video_details env_quota_second cfg_batch2 (map PyStr five_ids) world0))) =
     [([''a'', ''b''], Inr [no_statistics ''a'', no_statistics ''b'']),
      ([''c'', ''d''], Inl (HttpError 403))]
   \<and> fst (fetch_video_details env_quota_second cfg_batch2 (map PyStr five_ids) world0) =
       Inr [no_statistics ''a'', no_statistics ''b'']"
proof -
  have h: "video_calls (events (snd (fetch_video_details env_quota_second cfg_batch2 (map PyStr five_ids) world0))) =
           video_calls (events world0) @
           [([''a'', ''b''], Inr [no_statistics ''a'', no_statistics ''b''])] @
           ([''c'', ''d''], Inl (HttpError 403)) # []"
    by (simp add: fetch_video_details_def five_ids_def fetch_loop.simps env_quota_second_def
          env0_def world0_def cfg_batch2_def Let_def emit_def sleep_def logging_error_def)
  from fetch_video_details_quota[OF h] h show ?thesis by (simp add: world0_def)
qed

subsection \<open>Search paginator\<close>

lemma search_returned_Nil [simp]: "search_returned [] = []"
  by (simp add: search_returned_def)

lemma search_returned_Cons [simp]:
  "search_returned (ev # evs) = search_page ev @ search_returned evs"
  by (simp add: search_returned_def)

lemma search_returned_append [simp]:
  "search_returned (xs @ ys) = search_returned xs @ search_returned ys"
  by (simp add: search_returned_def)

lemma files_emit [simp]: "files (emit ev w) = files w"
  by (simp add: emit_def)

lemma files_logging_info [simp]: "files (logging_info m w) = files w"
  by (simp add: logging_info_def)

lemma files_logging_error [simp]: "files (logging_error m w) = files w"
  by (simp add: logging_error_def)

lemma files_sleep [simp]: "files (sleep n w) = files w"
  by (simp add: sleep_def)

lemma search_loop_result:
  "search_loop env cfg K fuel all_videos tok page_count w = Some (r, w') \<Longrightarrow>
     files w' = files w \<and>
     (\<exists>new. events w' = events w @ new
           \<and> r = all_videos @ filter (\<lambda>v. PyStr (videoId v) \<notin> K) (search_returned new))"
proof (induction fuel arbitrary: all_videos tok page_count w)
  case 0
  then show ?case by simp
next
  case (Suc fuel)
  define request where
    "request = \<lparr> q = query cfg, publishedAfter = published_after cfg,
                 publishedBefore = published_before cfg,
                 maxResults = max_results_per_page cfg, pageToken = tok \<rparr>"
  define w1 where "w1 = emit (SearchCall request (search_list env w request)) w"
  have ev1: "events w1 = events w @ [SearchCall request (search_list env w request)]"
    and f1: "files w1 = files w"
    by (simp_all add: w1_def)
  show ?case
  proof (cases "search_list env w request")
    case (Inr response)
    define new_videos where "new_videos = filter (\<lambda>v. PyStr (videoId v) \<notin> K) (search_items response)"
    define w2 where
      "w2 = logging_info (PageProcessed (page_count + 1) (length new_videos)
                            (length (all_videos @ new_videos))) w1"
    have ev2: "events w2 = events w @ [SearchCall request (Inr response),
                 Log INFO (PageProcessed (page_count + 1) (length new_videos)
                            (length (all_videos @ new_videos)))]"
      using Inr by (simp add: w2_def ev1)
    show ?thesis
    proof (cases "nextPageToken response = None \<or> nextPageToken response = Some []")
      case True
      have "search_loop env cfg K (Suc fuel) all_videos tok page_count w =
            Some (all_videos @ new_videos, logging_info NoMorePages w2)"
        using Inr True unfolding w2_def w1_def new_videos_def request_def
        by (simp add: Let_def)
      with Suc.prems have r: "r = all_videos @ new_videos" "w' = logging_info NoMorePages w2"
        by simp_all
      have "files w' = files w" unfolding r by (simp add: w2_def f1)
      moreover have "events w' = events w @ [SearchCall request (Inr response),
                 Log INFO (PageProcessed (page_count + 1) (length new_videos)
                            (length (all_videos @ new_videos))), Log INFO NoMorePages]"
        unfolding r by (simp add: ev2)
      moreover have "r = all_videos @ filter (\<lambda>v. PyStr (videoId v) \<notin> K)
                 (search_returned [SearchCall request (Inr response),
                 Log INFO (PageProcessed (page_count + 1) (length new_videos)
                            (length (all_videos @ new_videos))), Log INFO NoMorePages])"
        unfolding r by (simp add: new_videos_def)
      ultimately show ?thesis by blast
    next
      case False
      have "search_loop env cfg K (Suc fuel) all_videos tok page_count w =
            search_loop env cfg K fuel (all_videos @ new_videos) (nextPageToken response)
              (page_count + 1) (sleep 1 w2)"
        using Inr False unfolding w2_def w1_def new_videos_def request_def
        by (auto simp add: Let_def)
      with Suc.prems have
        "search_loop env cfg K fuel (all_videos @ new_videos) (nextPageToken response)
              (page_count + 1) (sleep 1 w2) = Some (r, w')" by simp
      from Suc.IH[OF this] obtain new where
        n: "files w' = files (sleep 1 w2)" "events w' = events (sleep 1 w2) @ new"
           "r = (all_videos @ new_videos) @ filter (\<lambda>v. PyStr (videoId v) \<notin> K) (search_returned new)"
        by blast
      have "files w' = files w" using n(1) by (simp add: w2_def f1)
      moreover have "events w' = events w @ ([SearchCall request (Inr response),
                 Log INFO (PageProcessed (page_count + 1) (length new_videos)
                            (length (all_videos @ new_videos)))] @ new)"
        using n(2) by (simp add: ev2)
      moreover have "r = all_videos @ filter (\<lambda>v. PyStr (videoId v) \<notin> K)
                 (search_returned ([SearchCall request (Inr response),
                 Log INFO (PageProcessed (page_count + 1) (length new_videos)
                            (length (all_videos @ new_videos)))] @ new))"
        using n(3) by (simp add: new_videos_def)
      ultimately show ?thesis by blast
    qed
  next
    case (Inl e)
    show ?thesis
    proof (cases e)
      case (HttpError status)
      show ?thesis
      proof (cases "status = 403")
        case True
        have "search_loop env cfg K (Suc fuel) all_videos tok page_count w =
              Some (all_videos, logging_error QuotaExceeded w1)"
          using Inl HttpError True unfolding w1_def request_def by (simp add: Let_def)
        with Suc.prems have r: "r = all_videos" "w' = logging_error QuotaExceeded w1"
          by simp_all
        have "files w' = files w" unfolding r by (simp add: f1)
        moreover have "events w' = events w @ [SearchCall request (Inl (HttpError status)),
                   Log ERROR QuotaExceeded]"
          unfolding r using Inl HttpError by (simp add: ev1)
        moreover have "r = all_videos @ filter (\<lambda>v. PyStr (videoId v) \<notin> K)
                   (search_returned [SearchCall request (Inl (HttpError status)),
                   Log ERROR QuotaExceeded])"
          unfolding r by simp
        ultimately show ?thesis by blast
      next
        case False
        define w2 where "w2 = sleep 10 (logging_error (HttpErrorMsg (HttpError status)) w1)"
        have "search_loop env cfg K (Suc fuel) all_videos tok page_count w =
              search_loop env cfg K fuel all_videos tok page_count w2"
          using Inl HttpError False unfolding w2_def w1_def request_def by (simp add: Let_def)
        with Suc.prems have "search_loop env cfg K fuel all_videos tok page_count w2 = Some (r, w')"
          by simp
        from Suc.IH[OF this] obtain new where
          n: "files w' = files w2" "events w' = events w2 @ new"
             "r = all_videos @ filter (\<lambda>v. PyStr (videoId v) \<notin> K) (search_returned new)"
          by blast
        have "files w' = files w" using n(1) by (simp add: w2_def f1)
        moreover have "events w' = events w @ ([SearchCall request (Inl e),
                   Log ERROR (HttpErrorMsg (HttpError status))] @ new)"
          using n(2) Inl by (simp add: w2_def ev1)
        moreover have "r = all_videos @ filter (\<lambda>v. PyStr (videoId v) \<notin> K)
                   (search_returned ([SearchCall request (Inl e),
                   Log ERROR (HttpErrorMsg (HttpError status))] @ new))"
          using n(3) by simp
        ultimately show ?thesis by blast
      qed
    next
      case (Exception s)
      define w2 where "w2 = sleep 10 (logging_error (UnexpectedError (Exception s)) w1)"
      have "search_loop env cfg K (Suc fuel) all_videos tok page_count w =
            search_loop env cfg K fuel all_videos tok page_count w2"
        using Inl Exception unfolding w2_def w1_def request_def by (simp add: Let_def)
      with Suc.prems have "search_loop env cfg K fuel all_videos tok page_count w2 = Some (r, w')"
        by simp
      from Suc.IH[OF this] obtain new where
        n: "files w' = files w2" "events w' = events w2 @ new"
           "r = all_videos @ filter (\<lambda>v. PyStr (videoId v) \<notin> K) (search_returned new)"
        by blast
      have "files w' = files w" using n(1) by (simp add: w2_def f1)
      moreover have "events w' = events w @ ([SearchCall request (Inl e),
                 Log ERROR (UnexpectedError (Exception s))] @ new)"
        using n(2) Inl by (simp add: w2_def ev1)
      moreover have "r = all_videos @ filter (\<lambda>v. PyStr (videoId v) \<notin> K)
                 (search_returned ([SearchCall request (Inl e),
                 Log ERROR (UnexpectedError (Exception s))] @ new))"
        using n(3) by simp
      ultimately show ?thesis by blast
    qed
  qed
qed

lemma search_loop_more_fuel:
  "search_loop env cfg K fuel all_videos tok page_count w = Some x \<Longrightarrow>
   search_loop env cfg K (fuel + k) all_videos tok page_count w = Some x"
proof (induction fuel arbitrary: all_videos tok page_count w)
  case 0
  then show ?case by simp
next
  case (Suc fuel)
  then show ?case
    by (auto simp add: Let_def split: sum.splits exn.splits if_splits)
qed

lemma search_youtube_videos_last_page:
  assumes "\<forall>w request. \<exists>items. search_list env w request =
             Inr \<lparr> search_items = items, nextPageToken = None \<rparr>"
  shows "\<exists>x. search_youtube_videos env cfg K (Suc fuel) w = Some x"
proof -
  obtain items where
    "search_list env w \<lparr> q = query cfg, publishedAfter = published_after cfg,
                 publishedBefore = published_before cfg,
                 maxResults = max_results_per_page cfg, pageToken = None \<rparr> =
       Inr \<lparr> search_items = items, nextPageToken = None \<rparr>"
    using assms by blast
  then show ?thesis by (simp add: search_youtube_videos_def Let_def)
qed


lemma search_outcomes_Nil [simp]: "search_outcomes [] = []"
  by (simp add: search_outcomes_def)

lemma search_outcomes_Cons [simp]:
  "search_outcomes (ev # evs) = search_outcome ev @ search_outcomes evs"
  by (simp add: search_outcomes_def)

lemma search_outcomes_append [simp]:
  "search_outcomes (xs @ ys) = search_outcomes xs @ search_outcomes ys"
  by (simp add: search_outcomes_def)

lemma search_returned_outcomes:
  "search_returned evs = concat (map page_items (search_outcomes evs))"
proof (induction evs)
  case Nil
  show ?case by simp
next
  case (Cons ev evs)
  have "search_page ev = concat (map page_items (search_outcome ev))"
    by (cases ev rule: search_page.cases) simp_all
  with Cons show ?case by simp
qed

text \<open>One request whose answer makes the paginator ask again.\<close>

lemma search_loop_continues:
  assumes answer: "\<forall>request. search_list env w request = out" and "continues out"
  shows "\<exists>tok' pc' w1 evs.
           search_loop env cfg K (Suc fuel) all_videos tok pc w =
             search_loop env cfg K fuel
               (all_videos @ filter (\<lambda>v. PyStr (videoId v) \<notin> K) (page_items out)) tok' pc' w1
         \<and> events w1 = events w @ evs \<and> search_outcomes evs = [out]"
proof (cases out)
  case (Inr response)
  define request where
    "request = \<lparr> q = query cfg, publishedAfter = published_after cfg,
                 publishedBefore = published_before cfg,
                 maxResults = max_results_per_page cfg, pageToken = tok \<rparr>"
  define new_videos where
    "new_videos = filter (\<lambda>v. PyStr (videoId v) \<notin> K) (search_items response)"
  define w1 where
    "w1 = sleep 1 (logging_info (PageProcessed (pc + 1) (length new_videos)
                     (length (all_videos @ new_videos)))
                   (emit (SearchCall request (Inr response)) w))"
  have "search_loop env cfg K (Suc fuel) all_videos tok pc w =
          search_loop env cfg K fuel
            (all_videos @ filter (\<lambda>v. PyStr (videoId v) \<notin> K) (page_items out))
            (nextPageToken response) (pc + 1) w1
        \<and> events w1 = events w @ [SearchCall request (Inr response),
              Log INFO (PageProcessed (pc + 1) (length new_videos)
                     (length (all_videos @ new_videos)))]
        \<and> search_outcomes [SearchCall request (Inr response),
              Log INFO (PageProcessed (pc + 1) (length new_videos)
                     (length (all_videos @ new_videos)))] = [out]"
    using assms Inr unfolding w1_def new_videos_def request_def
    by (auto simp add: Let_def)
  then show ?thesis by (intro exI)
next
  case (Inl e)
  define request where
    "request = \<lparr> q = query cfg, publishedAfter = published_after cfg,
                 publishedBefore = published_before cfg,
                 maxResults = max_results_per_page cfg, pageToken = tok \<rparr>"
  show ?thesis
  proof (cases e)
    case (HttpError status)
    define w1 where
      "w1 = sleep 10 (logging_error (HttpErrorMsg (HttpError status))
                       (emit (SearchCall request (Inl e)) w))"
    have "search_loop env cfg K (Suc fuel) all_videos tok pc w =
            search_loop env cfg K fuel
              (all_videos @ filter (\<lambda>v. PyStr (videoId v) \<notin> K) (page_items out)) tok pc w1
          \<and> events w1 = events w @ [SearchCall request (Inl e),
                Log ERROR (HttpErrorMsg (HttpError status))]
          \<and> search_outcomes [SearchCall request (Inl e),
                Log ERROR (HttpErrorMsg (HttpError status))] = [out]"
      using assms Inl HttpError unfolding w1_def request_def
      by (auto simp add: Let_def)
    then show ?thesis by (intro exI)
  next
    case (Exception s)
    define w1 where
      "w1 = sleep 10 (logging_error (UnexpectedError (Exception s))
                       (emit (SearchCall request (Inl e)) w))"
    have "search_loop env cfg K (Suc fuel) all_videos tok pc w =
            search_loop env cfg K fuel
              (all_videos @ filter (\<lambda>v. PyStr (videoId v) \<notin> K) (page_items out)) tok pc w1
          \<and> events w1 = events w @ [SearchCall request (Inl e),
                Log ERROR (UnexpectedError (Exception s))]
          \<and> search_outcomes [SearchCall request (Inl e),
                Log ERROR (UnexpectedError (Exception s))] = [out]"
      using assms Inl Exception unfolding w1_def request_def
      by (auto simp add: Let_def)
    then show ?thesis by (intro exI)
  qed
qed

text \<open>One request whose answer makes the paginator return.\<close>

lemma search_loop_stops:
  assumes answer: "\<forall>request. search_list env w request = out" and "\<not> continues out"
  shows "\<exists>w1 evs.
           search_loop env cfg K (Suc fuel) all_videos tok pc w =
             Some (all_videos @ filter (\<lambda>v. PyStr (videoId v) \<notin> K) (page_items out), w1)
         \<and> events w1 = events w @ evs \<and> search_outcomes evs = [out]"
proof (cases out)
  case (Inr response)
  define request where
    "request = \<lparr> q = query cfg, publishedAfter = published_after cfg,
                 publishedBefore = published_before cfg,
                 maxResults = max_results_per_page cfg, pageToken = tok \<rparr>"
  define new_videos where
    "new_videos = filter (\<lambda>v. PyStr (videoId v) \<notin> K) (search_items response)"
  define w1 where
    "w1 = logging_info NoMorePages
            (logging_info (PageProcessed (pc + 1) (length new_videos)
                     (length (all_videos @ new_videos)))
                   (emit (SearchCall request (Inr response)) w))"
  have "search_loop env cfg K (Suc fuel) all_videos tok pc w =
          Some (all_videos @ filter (\<lambda>v. PyStr (videoId v) \<notin> K) (page_items out), w1)
        \<and> events w1 = events w @ [SearchCall request (Inr response),
              Log INFO (PageProcessed (pc + 1) (length new_videos)
                     (length (all_videos @ new_videos))), Log INFO NoMorePages]
        \<and> search_outcomes [SearchCall request (Inr response),
              Log INFO (PageProcessed (pc + 1) (length new_videos)
                     (length (all_videos @ new_videos))), Log INFO NoMorePages] = [out]"
    using assms Inr unfolding w1_def new_videos_def request_def
    by (auto simp add: Let_def)
  then show ?thesis by (intro exI)
next
  case (Inl e)
  define request where
    "request = \<lparr> q = query cfg, publishedAfter = published_after cfg,
                 publishedBefore = published_before cfg,
                 maxResults = max_results_per_page cfg, pageToken = tok \<rparr>"
  from Inl assms(2) have e: "e = HttpError 403" by (cases e) auto
  define w1 where
    "w1 = logging_error QuotaExceeded (emit (SearchCall request (Inl e)) w)"
  have "search_loop env cfg K (Suc fuel) all_videos tok pc w =
          Some (all_videos @ filter (\<lambda>v. PyStr (videoId v) \<notin> K) (page_items out), w1)
        \<and> events w1 = events w @ [SearchCall request (Inl e), Log ERROR QuotaExceeded]
        \<and> search_outcomes [SearchCall request (Inl e), Log ERROR QuotaExceeded] = [out]"
    using assms Inl e unfolding w1_def request_def
    by (auto simp add: Let_def)
  then show ?thesis by (intro exI)
qed

text \<open>
  A search endpoint that answers the requests of a run by the script \<open>pre @ [final]\<close>,
  every answer of \<open>pre\<close> making the paginator ask again and \<open>final\<close> making it return:
  with more fuel than \<open>pre\<close> is long, the loop returns, and what it has added to
  \<open>all_videos\<close> is the script's entries without the known ones.
\<close>

lemma search_loop_script:
  assumes "\<forall>w' request k. k < length (pre @ [final]) \<longrightarrow>
             length (search_outcomes (events w')) = length (search_outcomes (events w)) + k \<longrightarrow>
             search_list env w' request = (pre @ [final]) ! k"
    and "\<forall>out \<in> set pre. continues out" and "\<not> continues final"
    and "length pre < fuel"
  shows "\<exists>w' new.
           search_loop env cfg K fuel all_videos tok pc w =
             Some (all_videos @ filter (\<lambda>v. PyStr (videoId v) \<notin> K)
                                  (concat (map page_items (pre @ [final]))), w')
         \<and> events w' = events w @ new \<and> search_outcomes new = pre @ [final]"
  using assms
proof (induction pre arbitrary: fuel all_videos tok pc w)
  case Nil
  from Nil.prems(4) obtain f where fuel: "fuel = Suc f" by (cases fuel) auto
  have "\<forall>request. search_list env w request = final"
  proof
    fix request
    have "search_list env w request = ([] @ [final]) ! 0"
      by (rule Nil.prems(1)[rule_format, of 0 w request]) simp_all
    then show "search_list env w request = final" by simp
  qed
  from search_loop_stops[OF this Nil.prems(3), of cfg K f all_videos tok pc]
  show ?case unfolding fuel by simp
next
  case (Cons out pre)
  from Cons.prems(4) obtain f where fuel: "fuel = Suc f" and f: "length pre < f"
    by (cases fuel) auto
  have a: "\<forall>request. search_list env w request = out"
  proof
    fix request
    have "search_list env w request = ((out # pre) @ [final]) ! 0"
      by (rule Cons.prems(1)[rule_format, of 0 w request]) simp_all
    then show "search_list env w request = out" by simp
  qed
  have c: "continues out" using Cons.prems(2) by simp
  from search_loop_continues[OF a c, of cfg K f all_videos tok pc]
  obtain tok' pc' w1 evs where
    step: "search_loop env cfg K (Suc f) all_videos tok pc w =
             search_loop env cfg K f
               (all_videos @ filter (\<lambda>v. PyStr (videoId v) \<notin> K) (page_items out)) tok' pc' w1"
    and ev: "events w1 = events w @ evs" and so: "search_outcomes evs = [out]"
    by blast
  have script: "\<forall>w' request k. k < length (pre @ [final]) \<longrightarrow>
             length (search_outcomes (events w')) = length (search_outcomes (events w1)) + k \<longrightarrow>
             search_list env w' request = (pre @ [final]) ! k"
  proof (intro allI impI)
    fix w' :: world and request :: search_request and k :: nat
    assume k: "k < length (pre @ [final])"
      and n: "length (search_outcomes (events w')) = length (search_outcomes (events w1)) + k"
    from n have "length (search_outcomes (events w')) =
                 length (search_outcomes (events w)) + Suc k"
      by (simp add: ev so)
    moreover have "Suc k < length ((out # pre) @ [final])" using k by simp
    ultimately have "search_list env w' request = ((out # pre) @ [final]) ! Suc k"
      using Cons.prems(1)[rule_format, of "Suc k" w' request] by simp
    then show "search_list env w' request = (pre @ [final]) ! k" by simp
  qed
  have pre: "\<forall>out \<in> set pre. continues out" using Cons.prems(2) by simp
  from Cons.IH[OF script pre Cons.prems(3) f,
      of "all_videos @ filter (\<lambda>v. PyStr (videoId v) \<notin> K) (page_items out)" tok' pc']
  obtain w' new where
    r: "search_loop env cfg K f
          (all_videos @ filter (\<lambda>v. PyStr (videoId v) \<notin> K) (page_items out)) tok' pc' w1 =
        Some ((all_videos @ filter (\<lambda>v. PyStr (videoId v) \<notin> K) (page_items out)) @
              filter (\<lambda>v. PyStr (videoId v) \<notin> K) (concat (map page_items (pre @ [final]))), w')"
    and ev': "events w' = events w1 @ new" and so': "search_outcomes new = pre @ [final]"
    by blast
  have "search_loop env cfg K fuel all_videos tok pc w =
          Some (all_videos @ filter (\<lambda>v. PyStr (videoId v) \<notin> K)
                               (concat (map page_items ((out # pre) @ [final]))), w')
        \<and> events w' = events w @ (evs @ new)
        \<and> search_outcomes (evs @ new) = (out # pre) @ [final]"
    unfolding fuel step r by (simp add: ev ev' so so')
  then show ?case by (intro exI)
qed

text \<open>
  Claim C1. Let the search endpoint answer the requests of a run by a script of answers
  (pages and errors) of which the last one, and no earlier one, makes the paginator
  return: a page without continuation token, or the exhausted quota. Then, given at
  least as many requests as the script is long, the paginator returns; its result is
  the entries of the script's pages, in order, without those whose identifier is in
  the set of existing identifiers, so no returned entry has an identifier of that set;
  and the answers it received are the script.
\<close>

theorem search_youtube_videos_filters:
  assumes "\<forall>w' request k. k < length outs \<longrightarrow>
             length (search_outcomes (events w')) = length (search_outcomes (events w)) + k \<longrightarrow>
             search_list env w' request = outs ! k"
    and "outs = pre @ [final]"
    and "\<forall>out \<in> set pre. continues out" and "\<not> continues final"
    and "length outs \<le> fuel"
  shows "\<exists>r w' new.
           search_youtube_videos env cfg K fuel w = Some (r, w')
         \<and> r = filter (\<lambda>v. PyStr (videoId v) \<notin> K) (concat (map page_items outs))
         \<and> (\<forall>v \<in> set r. PyStr (videoId v) \<notin> K)
         \<and> events w' = events w @ new
         \<and> search_outcomes new = outs
         \<and> search_returned new = concat (map page_items outs)"
proof -
  have fuel: "length pre < fuel" using assms(2,5) by simp
  from search_loop_script[OF assms(1)[unfolded assms(2)] assms(3,4) fuel, of cfg K "[]" None 0]
  obtain w' new where
    r: "search_youtube_videos env cfg K fuel w =
          Some (filter (\<lambda>v. PyStr (videoId v) \<notin> K) (concat (map page_items outs)), w')"
    and ev: "events w' = events w @ new" and so: "search_outcomes new = outs"
    unfolding search_youtube_videos_def assms(2) by (simp only: append_Nil) blast
  have sr: "search_returned new = concat (map page_items outs)"
    by (simp add: search_returned_outcomes so)
  have nk: "\<forall>v \<in> set (filter (\<lambda>v. PyStr (videoId v) \<notin> K) (concat (map page_items outs))).
              PyStr (videoId v) \<notin> K"
    by simp
  show ?thesis
    apply (rule exI[of _ "filter (\<lambda>v. PyStr (videoId v) \<notin> K) (concat (map page_items outs))"])
    apply (rule exI[of _ w'])
    apply (rule exI[of _ new])
    using r nk ev so sr apply (intro conjI)
         apply assumption
        apply (rule refl)
       apply assumption+
    done
qed

theorem search_youtube_videos_filters_witness:
  "\<exists>w' new. search_youtube_videos env_three_pages CONFIG {PyStr ''b''} 4 world0 =
                Some ([mk_item ''a'', mk_item ''c'', mk_item ''d''], w')
            \<and> events w' = events world0 @ new
            \<and> search_outcomes new = three_pages"
proof -
  have 1: "\<forall>w' request k. k < length three_pages \<longrightarrow>
             length (search_outcomes (events w')) =
               length (search_outcomes (events world0)) + k \<longrightarrow>
             search_list env_three_pages w' request = three_pages ! k"
    by (simp add: env_three_pages_def env0_def world0_def)
  have 2: "three_pages = take 3 three_pages @ [three_pages ! 3]"
    by (simp add: three_pages_def)
  have 3: "\<forall>out \<in> set (take 3 three_pages). continues out"
    by (simp add: three_pages_def)
  have 4: "\<not> continues (three_pages ! 3)"
    by (simp add: three_pages_def)
  have 5: "length three_pages \<le> 4"
    by (simp add: three_pages_def)
  from search_youtube_videos_filters[OF 1 2 3 4 5, of CONFIG "{PyStr ''b''}"]
  obtain r w' new where
    s: "search_youtube_videos env_three_pages CONFIG {PyStr ''b''} 4 world0 = Some (r, w')"
    and r: "r = filter (\<lambda>v. PyStr (videoId v) \<notin> {PyStr ''b''})
                  (concat (map page_items three_pages))"
    and ev: "events w' = events world0 @ new" and so: "search_outcomes new = three_pages"
    by blast
  have "r = [mk_item ''a'', mk_item ''c'', mk_item ''d'']"
    unfolding r by (simp add: three_pages_def mk_item_def)
  with s ev so show ?thesis by blast
qed

subsection \<open>Transcript backfill\<close>

lemma csv_writes_Nil [simp]: "csv_writes [] = []"
  by (simp add: csv_writes_def)

lemma csv_writes_Cons [simp]: "csv_writes (ev # evs) = csv_write ev @ csv_writes evs"
  by (simp add: csv_writes_def)

lemma csv_writes_append [simp]: "csv_writes (xs @ ys) = csv_writes xs @ csv_writes ys"
  by (simp add: csv_writes_def)

lemma processing_ids_Nil [simp]: "processing_ids [] = []"
  by (simp add: processing_ids_def)

lemma processing_ids_Cons [simp]:
  "processing_ids (ev # evs) = processing_id ev @ processing_ids evs"
  by (simp add: processing_ids_def)

lemma processing_ids_append [simp]:
  "processing_ids (xs @ ys) = processing_ids xs @ processing_ids ys"
  by (simp add: processing_ids_def)

text \<open>
  A call of the transcript fetcher returns, and adds to the log only its own request,
  detection and error line.
\<close>

lemma get_transcript_and_language_result:
  "\<exists>t l xs. get_transcript_and_language env vid w = (Inr (t, l), w\<lparr>events := events w @ xs\<rparr>)
            \<and> csv_writes xs = [] \<and> processing_ids xs = []"
proof (cases "vid = []")
  case True
  have "get_transcript_and_language env vid w =
          (Inr (''Video Error'', ''unknown''), w\<lparr>events := events w @ []\<rparr>)
        \<and> csv_writes [] = [] \<and> processing_ids [] = []"
    using True by (simp add: get_transcript_and_language_def)
  then show ?thesis by (intro exI)
next
  case False
  show ?thesis
  proof (cases "get_transcript env w vid")
    case (Inl e)
    have "get_transcript_and_language env vid w =
            (Inr (''Video Error'', ''unknown''),
             w\<lparr>events := events w @ [TranscriptCall vid (Inl e),
                                      Log ERROR (TranscriptError vid e)]\<rparr>)
          \<and> csv_writes [TranscriptCall vid (Inl e),
                               Log ERROR (TranscriptError vid e)] = []
          \<and> processing_ids [TranscriptCall vid (Inl e), Log ERROR (TranscriptError vid e)] = []"
      using False Inl
      by (simp add: get_transcript_and_language_def Let_def emit_def logging_error_def
            processing_id_def)
    then show ?thesis by (intro exI)
  next
    case (Inr segs)
    define full where "full = join '' '' (map seg_text segs)"
    define d where "d = detect_language env (emit (TranscriptCall vid (Inr segs)) w) full"
    have "get_transcript_and_language env vid w =
            (Inr (full, case d of Inl _ \<Rightarrow> ''unknown'' | Inr l \<Rightarrow> l),
             w\<lparr>events := events w @ [TranscriptCall vid (Inr segs), DetectCall full d]\<rparr>)
          \<and> csv_writes [TranscriptCall vid (Inr segs), DetectCall full d] = []
          \<and> processing_ids [TranscriptCall vid (Inr segs), DetectCall full d] = []"
      using False Inr unfolding d_def full_def
      by (simp add: get_transcript_and_language_def Let_def emit_def
            processing_id_def)
    then show ?thesis by (intro exI)
  qed
qed

lemma save_data_processing_ids:
  "processing_ids (events (snd (save_data env df p w))) = processing_ids (events w)"
  by (simp add: save_data_unfold Let_def processing_id_def)

lemma save_data_writable:
  assumes "csv_writable env w p"
  shows "\<exists>w'. save_data env df p w = (Inr (), w') \<and> files w' = (files w)(p \<mapsto> df)
             \<and> clock w' = clock w
             \<and> events w' = events w @ [CsvWrite p df True, Log INFO (DataSaved p)]"
  using assms
  by (simp add: save_data_unfold logging_info_def emit_def)

lemma transcripts_loop_step:
  assumes "get_transcript_and_language env (transcript_arg (video_id row))
             (logging_info (ProcessingTranscript (Suc c) n (py_str (video_id row))) w) =
           (Inr (t, l), w2)"
    and df1: "df1 = df[index := (df ! index)\<lparr>transcription := Some t, detected_language := Some l\<rparr>]"
  shows "transcripts_loop env cfg n ((index, row) # rest) c df w =
           (if Suc c mod 10 = 0
            then (case save_data env df1 (csv_file_path cfg) w2 of
                    (Inl e, w3) \<Rightarrow> (Inl e, w3)
                  | (Inr u, w3) \<Rightarrow>
                      transcripts_loop env cfg n rest (Suc c) df1
                        (sleep 1 (logging_info (SavedInterim (Suc c)) w3)))
            else transcripts_loop env cfg n rest (Suc c) df1 (sleep 1 w2))"
  unfolding df1 using assms(1) by (simp add: Let_def)

lemma transcripts_loop_frame:
  "transcripts_loop env cfg n sel c df w = (Inr (df', c'), w') \<Longrightarrow>
     length df' = length df \<and> c' = c + length sel
   \<and> (\<forall>i < length df.
         if i \<in> fst ` set sel
         then (\<exists>t l. df' ! i = (df ! i)\<lparr>transcription := Some t, detected_language := Some l\<rparr>)
         else df' ! i = df ! i)
   \<and> processing_ids (events w') =
       processing_ids (events w) @ map (\<lambda>x. py_str (video_id (snd x))) sel"
proof (induction sel arbitrary: c df w)
  case Nil
  then show ?case by simp
next
  case (Cons a rest)
  obtain index row where a: "a = (index, row)" by (cases a)
  define w1 where
    "w1 = logging_info (ProcessingTranscript (Suc c) n (py_str (video_id row))) w"
  obtain t l xs where
    g: "get_transcript_and_language env (transcript_arg (video_id row)) w1 =
          (Inr (t, l), w1\<lparr>events := events w1 @ xs\<rparr>)"
    and xs: "processing_ids xs = []"
    using get_transcript_and_language_result[of env "transcript_arg (video_id row)" w1]
    by blast
  define w2 where "w2 = w1\<lparr>events := events w1 @ xs\<rparr>"
  have p2: "processing_ids (events w2) = processing_ids (events w) @ [py_str (video_id row)]"
    by (simp add: w2_def w1_def xs processing_id_def)
  define df1 where
    "df1 = df[index := (df ! index)\<lparr>transcription := Some t, detected_language := Some l\<rparr>]"
  have len1: "length df1 = length df" by (simp add: df1_def)
  note step = transcripts_loop_step[OF g[unfolded w1_def] df1_def, folded w1_def w2_def,
      of cfg rest]
  have run: "(if Suc c mod 10 = 0
            then (case save_data env df1 (csv_file_path cfg) w2 of
                    (Inl e, w3) \<Rightarrow> (Inl e, w3)
                  | (Inr u, w3) \<Rightarrow>
                      transcripts_loop env cfg n rest (Suc c) df1
                        (sleep 1 (logging_info (SavedInterim (Suc c)) w3)))
            else transcripts_loop env cfg n rest (Suc c) df1 (sleep 1 w2)) = (Inr (df', c'), w')"
    using Cons.prems unfolding a step .
  have rec: "\<exists>w3. transcripts_loop env cfg n rest (Suc c) df1 w3 = (Inr (df', c'), w')
                 \<and> processing_ids (events w3) = processing_ids (events w2)"
  proof (cases "Suc c mod 10 = 0")
    case True
    obtain s w3 where s: "save_data env df1 (csv_file_path cfg) w2 = (s, w3)"
      by (cases "save_data env df1 (csv_file_path cfg) w2")
    have p3: "processing_ids (events w3) = processing_ids (events w2)"
      using save_data_processing_ids[of env df1 "csv_file_path cfg" w2] s by simp
    show ?thesis
    proof (cases s)
      case (Inl e)
      then have False using run True s by simp
      then show ?thesis ..
    next
      case (Inr u)
      then have "transcripts_loop env cfg n rest (Suc c) df1
                   (sleep 1 (logging_info (SavedInterim (Suc c)) w3)) = (Inr (df', c'), w')"
        using run True s by simp
      moreover have "processing_ids (events (sleep 1 (logging_info (SavedInterim (Suc c)) w3))) =
                     processing_ids (events w2)"
        by (simp add: p3 processing_id_def)
      ultimately show ?thesis by blast
    qed
  next
    case False
    then have "transcripts_loop env cfg n rest (Suc c) df1 (sleep 1 w2) = (Inr (df', c'), w')"
      using run by simp
    moreover have "processing_ids (events (sleep 1 w2)) = processing_ids (events w2)" by simp
    ultimately show ?thesis by blast
  qed
  then obtain w3 where
    r: "transcripts_loop env cfg n rest (Suc c) df1 w3 = (Inr (df', c'), w')"
    and p3: "processing_ids (events w3) = processing_ids (events w2)"
    by blast
  from Cons.IH[OF r] have
    ih: "length df' = length df1" "c' = Suc c + length rest"
        "\<forall>i < length df1.
           if i \<in> fst ` set rest
           then (\<exists>t l. df' ! i = (df1 ! i)\<lparr>transcription := Some t, detected_language := Some l\<rparr>)
           else df' ! i = df1 ! i"
        "processing_ids (events w') =
           processing_ids (events w3) @ map (\<lambda>x. py_str (video_id (snd x))) rest"
    by simp_all
  have frame: "\<forall>i < length df.
         if i \<in> fst ` set (a # rest)
         then (\<exists>t l. df' ! i = (df ! i)\<lparr>transcription := Some t, detected_language := Some l\<rparr>)
         else df' ! i = df ! i"
  proof (intro allI impI)
    fix i assume i: "i < length df"
    with ih(3) len1 have
      ihi: "if i \<in> fst ` set rest
            then (\<exists>t l. df' ! i = (df1 ! i)\<lparr>transcription := Some t, detected_language := Some l\<rparr>)
            else df' ! i = df1 ! i" by simp
    show "if i \<in> fst ` set (a # rest)
         then (\<exists>t l. df' ! i = (df ! i)\<lparr>transcription := Some t, detected_language := Some l\<rparr>)
         else df' ! i = df ! i"
    proof (cases "i = index")
      case True
      then have d: "df1 ! i = (df ! i)\<lparr>transcription := Some t, detected_language := Some l\<rparr>"
        using i by (simp add: df1_def)
      have mem: "i \<in> fst ` set (a # rest)" using True by (simp add: a)
      have "\<exists>t l. df' ! i = (df ! i)\<lparr>transcription := Some t, detected_language := Some l\<rparr>"
      proof (cases "i \<in> fst ` set rest")
        case in_rest: True
        from ihi[unfolded if_P[OF in_rest]] obtain t' l' where
          "df' ! i = (df1 ! i)\<lparr>transcription := Some t', detected_language := Some l'\<rparr>"
          by blast
        then have "df' ! i = (df ! i)\<lparr>transcription := Some t', detected_language := Some l'\<rparr>"
          unfolding d by simp
        then show ?thesis by blast
      next
        case False
        from ihi[unfolded if_not_P[OF False]] have "df' ! i = df1 ! i" .
        then have "df' ! i = (df ! i)\<lparr>transcription := Some t, detected_language := Some l\<rparr>"
          unfolding d .
        then show ?thesis by blast
      qed
      then show ?thesis unfolding if_P[OF mem] .
    next
      case False
      then have d: "df1 ! i = df ! i" by (simp add: df1_def)
      have m: "(i \<in> fst ` set (a # rest)) = (i \<in> fst ` set rest)"
        using False by (simp add: a)
      show ?thesis using ihi unfolding m d .
    qed
  qed
  have A: "length df' = length df" using ih(1) len1 by simp
  have B: "c' = c + length (a # rest)" using ih(2) by simp
  have D: "processing_ids (events w') =
           processing_ids (events w) @ map (\<lambda>x. py_str (video_id (snd x))) (a # rest)"
    using ih(4) p3 p2 by (simp add: a)
  show ?case
    apply (intro conjI)
       apply (fact A)
      apply (fact B)
     apply (fact frame)
    apply (fact D)
    done
qed


lemma enumerate_list_filter:
  "map snd (filter (\<lambda>(index, row). P row) (enumerate_list xs)) = filter P xs"
proof -
  have c: "(\<lambda>(index, row). P row) = P \<circ> snd" by auto
  have "map snd (filter (\<lambda>(index, row). P row) (enumerate_list xs)) =
             filter P (map snd (enumerate_list xs))"
    unfolding c by (simp add: filter_map)
  also have "map snd (enumerate_list xs) = xs" by (simp add: enumerate_list_def)
  finally show ?thesis .
qed

lemma enumerate_list_selected:
  assumes "i < length xs"
  shows "(i \<in> fst ` set (filter (\<lambda>(index, row). P row) (enumerate_list xs))) = P (xs ! i)"
proof
  assume "i \<in> fst ` set (filter (\<lambda>(index, row). P row) (enumerate_list xs))"
  then obtain row where "(i, row) \<in> set (enumerate_list xs)" "P row" by auto
  then show "P (xs ! i)" by (auto simp add: enumerate_list_def in_set_zip)
next
  assume "P (xs ! i)"
  moreover have "(i, xs ! i) \<in> set (enumerate_list xs)"
    unfolding enumerate_list_def in_set_zip
    by (rule exI[of _ i]) (use assms in simp)
  ultimately have "(i, xs ! i) \<in> set (filter (\<lambda>(index, row). P row) (enumerate_list xs))"
    by simp
  then show "i \<in> fst ` set (filter (\<lambda>(index, row). P row) (enumerate_list xs))"
    by force
qed

text \<open>
  Claim C6. When \<open>update_missing_transcripts\<close> returns, the table has the same rows in
  the same places; a row whose transcription was missing, empty or \<open>"Video Error"\<close> differs
  from the old row in its transcription and detected language only, every other row is
  the old row; and the rows processed, as the log names them, are exactly the rows
  selected, in table order.
\<close>

theorem update_missing_transcripts_frame:
  assumes "update_missing_transcripts env cfg existing_data w = (Inr existing_data', w')"
  shows "length existing_data' = length existing_data
       \<and> (\<forall>i < length existing_data.
             if transcript_missing (existing_data ! i)
             then (\<exists>t l. existing_data' ! i =
                            (existing_data ! i)\<lparr>transcription := Some t,
                                                  detected_language := Some l\<rparr>)
             else existing_data' ! i = existing_data ! i)
       \<and> processing_ids (events w') =
           processing_ids (events w) @
           map (\<lambda>row. py_str (video_id row)) (filter transcript_missing existing_data)"
proof (cases "existing_data = []")
  case True
  with assms show ?thesis by (simp add: update_missing_transcripts_def)
next
  case False
  define sel where
    "sel = filter (\<lambda>(index, row). transcript_missing row) (enumerate_list existing_data)"
  have sel_rows: "map snd sel = filter transcript_missing existing_data"
    unfolding sel_def by (rule enumerate_list_filter)
  have sel_idx: "\<And>i. i < length existing_data \<Longrightarrow>
                   (i \<in> fst ` set sel) = transcript_missing (existing_data ! i)"
    unfolding sel_def by (rule enumerate_list_selected)
  show ?thesis
  proof (cases "sel = []")
    case True
    then have none: "filter transcript_missing existing_data = []"
      using sel_rows by simp
    have r: "existing_data' = existing_data" "w' = logging_info NoMissingTranscripts w"
      using assms False True
      by (simp_all add: update_missing_transcripts_def sel_def[symmetric] Let_def)
    have "\<forall>i < length existing_data. \<not> transcript_missing (existing_data ! i)"
      using none by (simp add: filter_empty_conv)
    then show ?thesis by (simp add: r none processing_id_def)
  next
    case ne: False
    define w1 where "w1 = logging_info (UpdatingTranscripts (length sel)) w"
    obtain res w2 where l: "transcripts_loop env cfg (length sel) sel 0 existing_data w1 = (res, w2)"
      by (cases "transcripts_loop env cfg (length sel) sel 0 existing_data w1")
    have run: "update_missing_transcripts env cfg existing_data w =
          (case (res, w2) of
             (Inl e, w2) \<Rightarrow> (Inl e, w2)
           | (Inr (existing_data', updated_count), w2) \<Rightarrow>
               (Inr existing_data', logging_info (UpdatedTranscripts updated_count) w2))"
      using False ne l
      by (simp add: update_missing_transcripts_def sel_def[symmetric] Let_def w1_def[symmetric])
    obtain c' where res: "res = Inr (existing_data', c')"
      and w': "w' = logging_info (UpdatedTranscripts c') w2"
      using assms unfolding run by (cases res) (auto split: prod.splits)
    from transcripts_loop_frame[OF l[unfolded res]] have
      f: "length existing_data' = length existing_data"
         "\<forall>i < length existing_data.
            if i \<in> fst ` set sel
            then (\<exists>t l. existing_data' ! i =
                    (existing_data ! i)\<lparr>transcription := Some t, detected_language := Some l\<rparr>)
            else existing_data' ! i = existing_data ! i"
         "processing_ids (events w2) =
            processing_ids (events w1) @ map (\<lambda>x. py_str (video_id (snd x))) sel"
      by simp_all
    have A: "\<forall>i < length existing_data.
             if transcript_missing (existing_data ! i)
             then (\<exists>t l. existing_data' ! i =
                            (existing_data ! i)\<lparr>transcription := Some t,
                                                  detected_language := Some l\<rparr>)
             else existing_data' ! i = existing_data ! i"
    proof (intro allI impI)
      fix i assume i: "i < length existing_data"
      from f(2) i have
        "if i \<in> fst ` set sel
         then (\<exists>t l. existing_data' ! i =
                 (existing_data ! i)\<lparr>transcription := Some t, detected_language := Some l\<rparr>)
         else existing_data' ! i = existing_data ! i" by blast
      then show "if transcript_missing (existing_data ! i)
             then (\<exists>t l. existing_data' ! i =
                            (existing_data ! i)\<lparr>transcription := Some t,
                                                  detected_language := Some l\<rparr>)
             else existing_data' ! i = existing_data ! i"
        unfolding sel_idx[OF i] .
    qed
    have "map (\<lambda>x. py_str (video_id (snd x))) sel =
          map (\<lambda>row. py_str (video_id row)) (map snd sel)"
      by simp
    then have "map (\<lambda>x. py_str (video_id (snd x))) sel =
          map (\<lambda>row. py_str (video_id row)) (filter transcript_missing existing_data)"
      unfolding sel_rows .
    then have B: "processing_ids (events w') =
           processing_ids (events w) @
           map (\<lambda>row. py_str (video_id row)) (filter transcript_missing existing_data)"
      using f(3) by (simp add: w' w1_def processing_id_def)
    show ?thesis
      apply (intro conjI)
        apply (fact f(1))
       apply (fact A)
      apply (fact B)
      done
  qed
qed


theorem update_missing_transcripts_frame_witness:
  "\<exists>w'. update_missing_transcripts env_detect_fails CONFIG example_table world0 =
           (Inr example_table_backfilled, w')
       \<and> processing_ids (events w') = [''a'', ''c'']"
proof -
  have "\<exists>w'. update_missing_transcripts env_detect_fails CONFIG example_table world0 =
           (Inr example_table_backfilled, w')"
    by (simp add: update_missing_transcripts_def example_table_def example_table_backfilled_def
          enumerate_list_def transcript_missing_def example_row_def Let_def
          get_transcript_and_language_def env_detect_fails_def env0_def world0_def
          emit_def logging_info_def sleep_def transcript_arg_def)
  then obtain w' where
    e: "update_missing_transcripts env_detect_fails CONFIG example_table world0 =
           (Inr example_table_backfilled, w')" by blast
  from update_missing_transcripts_frame[OF e] have
    "processing_ids (events w') =
       processing_ids (events world0) @
       map (\<lambda>row. py_str (video_id row)) (filter transcript_missing example_table)"
    by blast
  then have "processing_ids (events w') = [''a'', ''c'']"
    by (simp add: world0_def example_table_def transcript_missing_def example_row_def)
  with e show ?thesis by blast
qed

text \<open>The loop over a list is the loop over its first part, continued over the rest.\<close>

lemma transcripts_loop_append:
  "transcripts_loop env cfg n (xs @ ys) c df w =
     (case transcripts_loop env cfg n xs c df w of
        (Inl e, w1) \<Rightarrow> (Inl e, w1)
      | (Inr (df1, c1), w1) \<Rightarrow> transcripts_loop env cfg n ys c1 df1 w1)"
proof (induction xs arbitrary: c df w)
  case Nil
  show ?case by simp
next
  case (Cons a xs)
  obtain index row where a: "a = (index, row)" by (cases a)
  show ?case
    unfolding a by (simp add: Let_def Cons.IH split: prod.splits sum.splits)
qed

text \<open>One row of the loop when the configured path can be written.\<close>

lemma transcripts_loop_row:
  assumes writable: "\<forall>w. csv_writable env w (csv_file_path cfg)"
  shows "\<exists>df1 w1 evs.
           transcripts_loop env cfg n [(index, row)] c df w = (Inr (df1, Suc c), w1)
         \<and> events w1 = events w @ evs
         \<and> csv_writes evs = (if Suc c mod 10 = 0 then [(csv_file_path cfg, df1)] else [])
         \<and> (Suc c mod 10 = 0 \<longrightarrow> files w1 (csv_file_path cfg) = Some df1)"
proof -
  define w1 where
    "w1 = logging_info (ProcessingTranscript (Suc c) n (py_str (video_id row))) w"
  obtain t l xs where
    g: "get_transcript_and_language env (transcript_arg (video_id row)) w1 =
          (Inr (t, l), w1\<lparr>events := events w1 @ xs\<rparr>)"
    and xs: "csv_writes xs = []"
    using get_transcript_and_language_result[of env "transcript_arg (video_id row)" w1]
    by blast
  define w2 where "w2 = w1\<lparr>events := events w1 @ xs\<rparr>"
  have ev2: "events w2 = events w @
               (Log INFO (ProcessingTranscript (Suc c) n (py_str (video_id row))) # xs)"
    by (simp add: w2_def w1_def)
  define df1 where
    "df1 = df[index := (df ! index)\<lparr>transcription := Some t, detected_language := Some l\<rparr>]"
  note step = transcripts_loop_step[OF g[unfolded w1_def] df1_def, folded w1_def w2_def,
      of cfg "[]"]
  show ?thesis
  proof (cases "Suc c mod 10 = 0")
    case True
    from save_data_writable[of env w2 "csv_file_path cfg" df1] writable
    obtain w3 where
      s: "save_data env df1 (csv_file_path cfg) w2 = (Inr (), w3)"
      and f3: "files w3 = (files w2)(csv_file_path cfg \<mapsto> df1)"
      and ev3: "events w3 = events w2 @ [CsvWrite (csv_file_path cfg) df1 True,
                                          Log INFO (DataSaved (csv_file_path cfg))]"
      by blast
    define w4 where "w4 = sleep 1 (logging_info (SavedInterim (Suc c)) w3)"
    have "transcripts_loop env cfg n [(index, row)] c df w = (Inr (df1, Suc c), w4)
         \<and> events w4 = events w @
               (Log INFO (ProcessingTranscript (Suc c) n (py_str (video_id row))) # xs @
                [CsvWrite (csv_file_path cfg) df1 True,
                 Log INFO (DataSaved (csv_file_path cfg)),
                 Log INFO (SavedInterim (Suc c))])
         \<and> csv_writes
               (Log INFO (ProcessingTranscript (Suc c) n (py_str (video_id row))) # xs @
                [CsvWrite (csv_file_path cfg) df1 True,
                 Log INFO (DataSaved (csv_file_path cfg)),
                 Log INFO (SavedInterim (Suc c))]) =
             (if Suc c mod 10 = 0 then [(csv_file_path cfg, df1)] else [])
         \<and> (Suc c mod 10 = 0 \<longrightarrow> files w4 (csv_file_path cfg) = Some df1)"
      unfolding step w4_def using True s by (simp add: ev3 ev2 f3 xs)
    then show ?thesis by (intro exI)
  next
    case False
    have "transcripts_loop env cfg n [(index, row)] c df w = (Inr (df1, Suc c), sleep 1 w2)
         \<and> events (sleep 1 w2) = events w @
               (Log INFO (ProcessingTranscript (Suc c) n (py_str (video_id row))) # xs)
         \<and> csv_writes
               (Log INFO (ProcessingTranscript (Suc c) n (py_str (video_id row))) # xs) =
             (if Suc c mod 10 = 0 then [(csv_file_path cfg, df1)] else [])
         \<and> (Suc c mod 10 = 0 \<longrightarrow> files (sleep 1 w2) (csv_file_path cfg) = Some df1)"
      unfolding step using False by (simp add: ev2 xs)
    then show ?thesis by (intro exI)
  qed
qed

text \<open>
  The loop stopped after \<open>m\<close> rows, when the configured path can be written: it has
  processed \<open>m\<close> rows, the writes so far are the tables after rows 10, 20, and so on up to
  \<open>m\<close>, and right after a tenth row the file holds the table.
\<close>

lemma transcripts_loop_prefix:
  assumes writable: "\<forall>w. csv_writable env w (csv_file_path cfg)"
    and m: "m \<le> length sel"
  shows "\<exists>df_m w_m evs.
           transcripts_loop env cfg n (take m sel) 0 df w = (Inr (df_m, m), w_m)
         \<and> events w_m = events w @ evs
         \<and> csv_writes evs =
             map (\<lambda>j. (csv_file_path cfg,
                        case fst (transcripts_loop env cfg n (take (10 * j) sel) 0 df w) of
                          Inr (d, c) \<Rightarrow> d | Inl e \<Rightarrow> df))
               [1..<Suc (m div 10)]
         \<and> (0 < m \<and> m mod 10 = 0 \<longrightarrow> files w_m (csv_file_path cfg) = Some df_m)"
  using m
proof (induction m)
  case 0
  have "transcripts_loop env cfg n (take 0 sel) 0 df w = (Inr (df, 0), w)
         \<and> events w = events w @ []
         \<and> csv_writes [] =
             map (\<lambda>j. (csv_file_path cfg,
                        case fst (transcripts_loop env cfg n (take (10 * j) sel) 0 df w) of
                          Inr (d, c) \<Rightarrow> d | Inl e \<Rightarrow> df))
               [1..<Suc (0 div 10)]
         \<and> (0 < (0::nat) \<and> (0::nat) mod 10 = 0 \<longrightarrow> files w (csv_file_path cfg) = Some df)"
    by simp
  then show ?case by (intro exI)
next
  case (Suc m)
  then have m: "m < length sel" by simp
  from Suc.IH m obtain df_m w_m evs where
    p: "transcripts_loop env cfg n (take m sel) 0 df w = (Inr (df_m, m), w_m)"
    and ev: "events w_m = events w @ evs"
    and cw: "csv_writes evs =
             map (\<lambda>j. (csv_file_path cfg,
                        case fst (transcripts_loop env cfg n (take (10 * j) sel) 0 df w) of
                          Inr (d, c) \<Rightarrow> d | Inl e \<Rightarrow> df))
               [1..<Suc (m div 10)]"
    by auto
  obtain index row where x: "sel ! m = (index, row)" by (cases "sel ! m")
  have tk: "take (Suc m) sel = take m sel @ [(index, row)]"
    using m x by (simp add: take_Suc_conv_app_nth)
  from transcripts_loop_row[OF writable, of n index row m df_m w_m]
  obtain df1 w1 evs1 where
    r: "transcripts_loop env cfg n [(index, row)] m df_m w_m = (Inr (df1, Suc m), w1)"
    and ev1: "events w1 = events w_m @ evs1"
    and cw1: "csv_writes evs1 = (if Suc m mod 10 = 0 then [(csv_file_path cfg, df1)] else [])"
    and f1: "Suc m mod 10 = 0 \<longrightarrow> files w1 (csv_file_path cfg) = Some df1"
    by (elim exE conjE) (rule that, assumption+)
  have run: "transcripts_loop env cfg n (take (Suc m) sel) 0 df w = (Inr (df1, Suc m), w1)"
    unfolding tk transcripts_loop_append p using r by simp
  have cws: "csv_writes (evs @ evs1) =
             map (\<lambda>j. (csv_file_path cfg,
                        case fst (transcripts_loop env cfg n (take (10 * j) sel) 0 df w) of
                          Inr (d, c) \<Rightarrow> d | Inl e \<Rightarrow> df))
               [1..<Suc (Suc m div 10)]"
  proof (cases "Suc m mod 10 = 0")
    case True
    then have d: "Suc m div 10 = Suc (m div 10)" by (simp add: div_Suc)
    have "10 * (Suc m div 10) = Suc m" using True by auto
    then have t: "10 * Suc (m div 10) = Suc m" unfolding d .
    have "(case fst (transcripts_loop env cfg n (take (10 * Suc (m div 10)) sel) 0 df w) of
             Inr (d, c) \<Rightarrow> d | Inl e \<Rightarrow> df) = df1"
      unfolding t run by simp
    then show ?thesis
      unfolding d using True by (simp add: cw cw1)
  next
    case False
    then have d: "Suc m div 10 = m div 10" by (simp add: div_Suc)
    show ?thesis unfolding d using False by (simp add: cw cw1)
  qed
  have "transcripts_loop env cfg n (take (Suc m) sel) 0 df w = (Inr (df1, Suc m), w1)
         \<and> events w1 = events w @ (evs @ evs1)
         \<and> csv_writes (evs @ evs1) =
             map (\<lambda>j. (csv_file_path cfg,
                        case fst (transcripts_loop env cfg n (take (10 * j) sel) 0 df w) of
                          Inr (d, c) \<Rightarrow> d | Inl e \<Rightarrow> df))
               [1..<Suc (Suc m div 10)]
         \<and> (0 < Suc m \<and> Suc m mod 10 = 0 \<longrightarrow> files w1 (csv_file_path cfg) = Some df1)"
    using run cws f1 by (simp add: ev ev1)
  then show ?case by (intro exI)
qed

text \<open>The same for the backfill of a table, stopped after \<open>m\<close> of the selected rows.\<close>

lemma backfill_prefix_run:
  assumes writable: "\<forall>w. csv_writable env w (csv_file_path cfg)"
    and m: "m \<le> length (filter transcript_missing existing_data)"
  shows "\<exists>evs.
           backfill_prefix env cfg existing_data w m =
             (Inr (table_after env cfg existing_data w m, m),
              world_after env cfg existing_data w m)
         \<and> events (world_after env cfg existing_data w m) =
             events w @
             Log INFO (UpdatingTranscripts (length (filter transcript_missing existing_data)))
               # evs
         \<and> csv_writes evs =
             map (\<lambda>j. (csv_file_path cfg, table_after env cfg existing_data w (10 * j)))
               [1..<Suc (m div 10)]
         \<and> (0 < m \<and> m mod 10 = 0 \<longrightarrow>
              files (world_after env cfg existing_data w m) (csv_file_path cfg) =
                Some (table_after env cfg existing_data w m))"
proof -
  define sel where
    "sel = filter (\<lambda>(index, row). transcript_missing row) (enumerate_list existing_data)"
  define n where "n = length (filter transcript_missing existing_data)"
  have "map snd sel = filter transcript_missing existing_data"
    unfolding sel_def by (rule enumerate_list_filter)
  then have "length (map snd sel) = n" unfolding n_def by simp
  then have len: "length sel = n" by simp
  define w1 where "w1 = logging_info (UpdatingTranscripts n) w"
  have bp: "\<And>j. backfill_prefix env cfg existing_data w j =
              transcripts_loop env cfg n (take j sel) 0 existing_data w1"
    unfolding backfill_prefix_def Let_def sel_def[symmetric] len w1_def ..
  have ta: "\<And>j. table_after env cfg existing_data w j =
              (case fst (transcripts_loop env cfg n (take j sel) 0 existing_data w1) of
                 Inr (d, c) \<Rightarrow> d | Inl e \<Rightarrow> existing_data)"
    unfolding table_after_def bp ..
  have wa: "\<And>j. world_after env cfg existing_data w j =
              snd (transcripts_loop env cfg n (take j sel) 0 existing_data w1)"
    unfolding world_after_def bp ..
  from m have "m \<le> length sel" unfolding len n_def .
  from transcripts_loop_prefix[OF writable this, of n existing_data w1]
  obtain df_m w_m evs where
    p: "transcripts_loop env cfg n (take m sel) 0 existing_data w1 = (Inr (df_m, m), w_m)"
    and ev: "events w_m = events w1 @ evs"
    and cw: "csv_writes evs =
             map (\<lambda>j. (csv_file_path cfg,
                        case fst (transcripts_loop env cfg n (take (10 * j) sel) 0
                                    existing_data w1) of
                          Inr (d, c) \<Rightarrow> d | Inl e \<Rightarrow> existing_data))
               [1..<Suc (m div 10)]"
    and f: "0 < m \<and> m mod 10 = 0 \<longrightarrow> files w_m (csv_file_path cfg) = Some df_m"
    by (elim exE conjE) (rule that, assumption+)
  have tm: "table_after env cfg existing_data w m = df_m" unfolding ta p by simp
  have wm: "world_after env cfg existing_data w m = w_m" unfolding wa p by simp
  have "backfill_prefix env cfg existing_data w m =
             (Inr (table_after env cfg existing_data w m, m),
              world_after env cfg existing_data w m)
         \<and> events (world_after env cfg existing_data w m) =
             events w @ Log INFO (UpdatingTranscripts n) # evs
         \<and> csv_writes evs =
             map (\<lambda>j. (csv_file_path cfg, table_after env cfg existing_data w (10 * j)))
               [1..<Suc (m div 10)]
         \<and> (0 < m \<and> m mod 10 = 0 \<longrightarrow>
              files (world_after env cfg existing_data w m) (csv_file_path cfg) =
                Some (table_after env cfg existing_data w m))"
    unfolding tm wm unfolding ta bp
    using p ev cw f by (simp add: w1_def logging_info_def emit_def)
  then show ?thesis unfolding n_def by (intro exI)
qed

text \<open>
  Claim C7. Checkpoint persistence during backfill occurs after every 10th processed row
  (a 25-row backfill saves after row 10 and row 20, plus a final save).

  Let the backfill be switched on, the table non-empty, the configured path writable, and
  \<open>n\<close> the number of rows the backfill selects. Write \<open>T m\<close> for
  \<open>table_after env cfg existing_data w m\<close>, the table when the loop has processed \<open>m\<close> of
  the selected rows. Then lines 314 to 316 of \<open>main\<close> return \<open>T n\<close>, and the tables written
  to the configured path during these lines are, in order, \<open>T 10\<close>, \<open>T 20\<close>, and so on up
  to \<open>n\<close>, followed by the final \<open>T n\<close>: \<open>n div 10 + 1\<close> writes, after which the file holds
  \<open>T n\<close>. Moreover for every \<open>m \<le> n\<close>: the loop stopped after \<open>m\<close> rows has not failed and
  has counted \<open>m\<close> rows; the whole loop is the loop over the remaining rows started from
  that table, count and world; up to that moment exactly the tables \<open>T 10\<close>, \<open>T 20\<close>, up
  to \<open>m\<close>, have been written, so the \<open>j\<close>-th write happens while row \<open>10 * j\<close> is processed;
  right after a tenth row the file holds \<open>T m\<close>; and \<open>T m\<close> is the table given with the new
  transcript and language in the first \<open>m\<close> selected rows and every other row unchanged.
\<close>

theorem backfill_checkpoints:
  assumes "update_transcripts cfg" and "existing_data \<noteq> []"
    and "\<forall>w. csv_writable env w (csv_file_path cfg)"
    and "n = length (filter transcript_missing existing_data)"
  shows "(\<exists>w' new.
            main_update_transcripts env cfg existing_data w =
              (Inr (table_after env cfg existing_data w n), w')
          \<and> events w' = events w @ new
          \<and> csv_writes new =
              map (\<lambda>j. (csv_file_path cfg, table_after env cfg existing_data w (10 * j)))
                [1..<Suc (n div 10)]
              @ [(csv_file_path cfg, table_after env cfg existing_data w n)]
          \<and> length (csv_writes new) = n div 10 + 1
          \<and> files w' (csv_file_path cfg) = Some (table_after env cfg existing_data w n))
       \<and> (\<forall>m \<le> n.
            backfill_prefix env cfg existing_data w m =
              (Inr (table_after env cfg existing_data w m, m),
               world_after env cfg existing_data w m)
          \<and> backfill_prefix env cfg existing_data w n =
              transcripts_loop env cfg n
                (drop m (filter (\<lambda>(index, row). transcript_missing row)
                           (enumerate_list existing_data)))
                m (table_after env cfg existing_data w m)
                (world_after env cfg existing_data w m)
          \<and> csv_writes (drop (length (events w))
                          (events (world_after env cfg existing_data w m))) =
              map (\<lambda>j. (csv_file_path cfg, table_after env cfg existing_data w (10 * j)))
                [1..<Suc (m div 10)]
          \<and> (0 < m \<and> m mod 10 = 0 \<longrightarrow>
               files (world_after env cfg existing_data w m) (csv_file_path cfg) =
                 Some (table_after env cfg existing_data w m))
          \<and> length (table_after env cfg existing_data w m) = length existing_data
          \<and> (\<forall>i < length existing_data.
                if i \<in> fst ` set (take m (filter (\<lambda>(index, row). transcript_missing row)
                                             (enumerate_list existing_data)))
                then (\<exists>t l. table_after env cfg existing_data w m ! i =
                               (existing_data ! i)\<lparr>transcription := Some t,
                                                     detected_language := Some l\<rparr>)
                else table_after env cfg existing_data w m ! i = existing_data ! i))"
proof -
  note writable = assms(3)
  define sel where
    "sel = filter (\<lambda>(index, row). transcript_missing row) (enumerate_list existing_data)"
  have "map snd sel = filter transcript_missing existing_data"
    unfolding sel_def by (rule enumerate_list_filter)
  then have "length (map snd sel) = n" unfolding assms(4) by simp
  then have len: "length sel = n" by simp
  define w1 where "w1 = logging_info (UpdatingTranscripts n) w"
  define T where "T = table_after env cfg existing_data w"
  define W where "W = world_after env cfg existing_data w"
  define p where "p = csv_file_path cfg"
  have bp: "\<And>j. backfill_prefix env cfg existing_data w j =
              transcripts_loop env cfg n (take j sel) 0 existing_data w1"
    unfolding backfill_prefix_def Let_def sel_def[symmetric] len w1_def ..
  have run: "\<And>m. m \<le> n \<Longrightarrow> \<exists>evs.
           backfill_prefix env cfg existing_data w m = (Inr (T m, m), W m)
         \<and> events (W m) = events w @ Log INFO (UpdatingTranscripts n) # evs
         \<and> csv_writes evs = map (\<lambda>j. (p, T (10 * j))) [1..<Suc (m div 10)]
         \<and> (0 < m \<and> m mod 10 = 0 \<longrightarrow> files (W m) p = Some (T m))"
    unfolding T_def W_def p_def assms(4)
    by (rule backfill_prefix_run[OF writable])
  have T0: "T 0 = existing_data"
    unfolding T_def table_after_def bp by simp
  have first: "\<exists>w' new.
            main_update_transcripts env cfg existing_data w = (Inr (T n), w')
          \<and> events w' = events w @ new
          \<and> csv_writes new = map (\<lambda>j. (p, T (10 * j))) [1..<Suc (n div 10)] @ [(p, T n)]
          \<and> length (csv_writes new) = n div 10 + 1
          \<and> files w' p = Some (T n)"
  proof (cases "n = 0")
    case True
    then have e: "sel = []" using len by simp
    define w2 where "w2 = logging_info NoMissingTranscripts w"
    have u: "update_missing_transcripts env cfg existing_data w = (Inr existing_data, w2)"
      unfolding update_missing_transcripts_def Let_def sel_def[symmetric] w2_def
      using assms(2) e by simp
    have wr: "csv_writable env w2 p" using writable unfolding p_def by simp
    from save_data_writable[OF wr, of existing_data]
    obtain w3 where
      s: "save_data env existing_data p w2 = (Inr (), w3)"
      and f3: "files w3 = (files w2)(p \<mapsto> existing_data)"
      and ev3: "events w3 = events w2 @ [CsvWrite p existing_data True, Log INFO (DataSaved p)]"
      by (elim exE conjE) (rule that, assumption+)
    have "main_update_transcripts env cfg existing_data w = (Inr (T n), w3)
          \<and> events w3 = events w @ [Log INFO NoMissingTranscripts,
                                     CsvWrite p existing_data True, Log INFO (DataSaved p)]
          \<and> csv_writes [Log INFO NoMissingTranscripts,
                         CsvWrite p existing_data True, Log INFO (DataSaved p)] =
              map (\<lambda>j. (p, T (10 * j))) [1..<Suc (n div 10)] @ [(p, T n)]
          \<and> length (csv_writes [Log INFO NoMissingTranscripts,
                         CsvWrite p existing_data True, Log INFO (DataSaved p)]) = n div 10 + 1
          \<and> files w3 p = Some (T n)"
      unfolding main_update_transcripts_def u True T0
      using assms(1,2) s[unfolded p_def]
      by (simp add: ev3 f3 w2_def logging_info_def emit_def p_def)
    then show ?thesis by (intro exI)
  next
    case False
    then have ne: "sel \<noteq> []" using len by auto
    from run[OF order_refl] obtain evs where
      r: "backfill_prefix env cfg existing_data w n = (Inr (T n, n), W n)"
      and ev: "events (W n) = events w @ Log INFO (UpdatingTranscripts n) # evs"
      and cw: "csv_writes evs = map (\<lambda>j. (p, T (10 * j))) [1..<Suc (n div 10)]"
      by (elim exE conjE) (rule that, assumption+)
    have full: "transcripts_loop env cfg n sel 0 existing_data w1 = (Inr (T n, n), W n)"
      using r unfolding bp using len by simp
    define w2 where "w2 = logging_info (UpdatedTranscripts n) (W n)"
    have u: "update_missing_transcripts env cfg existing_data w = (Inr (T n), w2)"
      unfolding update_missing_transcripts_def Let_def sel_def[symmetric] len
        w1_def[symmetric] full w2_def
      using assms(2) ne by simp
    have wr: "csv_writable env w2 p" using writable unfolding p_def by simp
    from save_data_writable[OF wr, of "T n"]
    obtain w3 where
      s: "save_data env (T n) p w2 = (Inr (), w3)"
      and f3: "files w3 = (files w2)(p \<mapsto> T n)"
      and ev3: "events w3 = events w2 @ [CsvWrite p (T n) True, Log INFO (DataSaved p)]"
      by (elim exE conjE) (rule that, assumption+)
    have "main_update_transcripts env cfg existing_data w = (Inr (T n), w3)
          \<and> events w3 = events w @
              (Log INFO (UpdatingTranscripts n) # evs @
               [Log INFO (UpdatedTranscripts n), CsvWrite p (T n) True, Log INFO (DataSaved p)])
          \<and> csv_writes
              (Log INFO (UpdatingTranscripts n) # evs @
               [Log INFO (UpdatedTranscripts n), CsvWrite p (T n) True, Log INFO (DataSaved p)]) =
              map (\<lambda>j. (p, T (10 * j))) [1..<Suc (n div 10)] @ [(p, T n)]
          \<and> length (csv_writes
              (Log INFO (UpdatingTranscripts n) # evs @
               [Log INFO (UpdatedTranscripts n), CsvWrite p (T n) True, Log INFO (DataSaved p)]))
              = n div 10 + 1
          \<and> files w3 p = Some (T n)"
      unfolding main_update_transcripts_def u
      using assms(1,2) s[unfolded p_def]
      by (simp add: ev3 f3 w2_def logging_info_def emit_def ev cw p_def)
    then show ?thesis by (intro exI)
  qed
  have second: "\<forall>m \<le> n.
            backfill_prefix env cfg existing_data w m = (Inr (T m, m), W m)
          \<and> backfill_prefix env cfg existing_data w n =
              transcripts_loop env cfg n (drop m sel) m (T m) (W m)
          \<and> csv_writes (drop (length (events w)) (events (W m))) =
              map (\<lambda>j. (p, T (10 * j))) [1..<Suc (m div 10)]
          \<and> (0 < m \<and> m mod 10 = 0 \<longrightarrow> files (W m) p = Some (T m))
          \<and> length (T m) = length existing_data
          \<and> (\<forall>i < length existing_data.
                if i \<in> fst ` set (take m sel)
                then (\<exists>t l. T m ! i =
                               (existing_data ! i)\<lparr>transcription := Some t,
                                                     detected_language := Some l\<rparr>)
                else T m ! i = existing_data ! i)"
  proof (intro allI impI)
    fix m assume m: "m \<le> n"
    from run[OF m] obtain evs where
      r: "backfill_prefix env cfg existing_data w m = (Inr (T m, m), W m)"
      and ev: "events (W m) = events w @ Log INFO (UpdatingTranscripts n) # evs"
      and cw: "csv_writes evs = map (\<lambda>j. (p, T (10 * j))) [1..<Suc (m div 10)]"
      and f: "0 < m \<and> m mod 10 = 0 \<longrightarrow> files (W m) p = Some (T m)"
      by (elim exE conjE) (rule that, assumption+)
    have pm: "transcripts_loop env cfg n (take m sel) 0 existing_data w1 = (Inr (T m, m), W m)"
      using r unfolding bp .
    have "transcripts_loop env cfg n (take m sel @ drop m sel) 0 existing_data w1 =
            transcripts_loop env cfg n (drop m sel) m (T m) (W m)"
      unfolding transcripts_loop_append pm by simp
    then have cont: "backfill_prefix env cfg existing_data w n =
              transcripts_loop env cfg n (drop m sel) m (T m) (W m)"
      unfolding bp using len by simp
    have c: "csv_writes (drop (length (events w)) (events (W m))) =
              map (\<lambda>j. (p, T (10 * j))) [1..<Suc (m div 10)]"
      unfolding ev using cw by simp
    from transcripts_loop_frame[OF pm] have
      l: "length (T m) = length existing_data"
      and fr: "\<forall>i < length existing_data.
                if i \<in> fst ` set (take m sel)
                then (\<exists>t l. T m ! i =
                               (existing_data ! i)\<lparr>transcription := Some t,
                                                     detected_language := Some l\<rparr>)
                else T m ! i = existing_data ! i"
      by blast+
    show "backfill_prefix env cfg existing_data w m = (Inr (T m, m), W m)
          \<and> backfill_prefix env cfg existing_data w n =
              transcripts_loop env cfg n (drop m sel) m (T m) (W m)
          \<and> csv_writes (drop (length (events w)) (events (W m))) =
              map (\<lambda>j. (p, T (10 * j))) [1..<Suc (m div 10)]
          \<and> (0 < m \<and> m mod 10 = 0 \<longrightarrow> files (W m) p = Some (T m))
          \<and> length (T m) = length existing_data
          \<and> (\<forall>i < length existing_data.
                if i \<in> fst ` set (take m sel)
                then (\<exists>t l. T m ! i =
                               (existing_data ! i)\<lparr>transcription := Some t,
                                                     detected_language := Some l\<rparr>)
                else T m ! i = existing_data ! i)"
      apply (intro conjI)
           apply (fact r)
          apply (fact cont)
         apply (fact c)
        apply (fact f)
       apply (fact l)
      apply (fact fr)
      done
  qed
  from first second show ?thesis
    unfolding T_def W_def p_def sel_def by (rule conjI)
qed

theorem backfill_checkpoints_witness:
  "(\<exists>w' new.
      main_update_transcripts env0 cfg_backfill table25 world0 =
        (Inr (table_after env0 cfg_backfill table25 world0 25), w')
    \<and> events w' = events world0 @ new
    \<and> csv_writes new =
        [(''data/scrapped_data.csv'', table_after env0 cfg_backfill table25 world0 10),
         (''data/scrapped_data.csv'', table_after env0 cfg_backfill table25 world0 20),
         (''data/scrapped_data.csv'', table_after env0 cfg_backfill table25 world0 25)]
    \<and> length (csv_writes new) = 3
    \<and> files w' ''data/scrapped_data.csv'' =
        Some (table_after env0 cfg_backfill table25 world0 25))
   \<and> csv_writes (events (world_after env0 cfg_backfill table25 world0 9)) = []
   \<and> csv_writes (events (world_after env0 cfg_backfill table25 world0 10)) =
        [(''data/scrapped_data.csv'', table_after env0 cfg_backfill table25 world0 10)]
   \<and> files (world_after env0 cfg_backfill table25 world0 10) ''data/scrapped_data.csv'' =
        Some (table_after env0 cfg_backfill table25 world0 10)
   \<and> csv_writes (events (world_after env0 cfg_backfill table25 world0 19)) =
        [(''data/scrapped_data.csv'', table_after env0 cfg_backfill table25 world0 10)]
   \<and> csv_writes (events (world_after env0 cfg_backfill table25 world0 20)) =
        [(''data/scrapped_data.csv'', table_after env0 cfg_backfill table25 world0 10),
         (''data/scrapped_data.csv'', table_after env0 cfg_backfill table25 world0 20)]
   \<and> files (world_after env0 cfg_backfill table25 world0 20) ''data/scrapped_data.csv'' =
        Some (table_after env0 cfg_backfill table25 world0 20)
   \<and> length (table_after env0 cfg_backfill table25 world0 10) = 25"
proof -
  have 1: "update_transcripts cfg_backfill" by (simp add: cfg_backfill_def)
  have 2: "table25 \<noteq> []" by (simp add: table25_def upt_rec)
  have 3: "\<forall>w. csv_writable env0 w (csv_file_path cfg_backfill)"
    by (simp add: env0_def)
  have n: "25 = length (filter transcript_missing table25)"
    by (simp add: table25_def filter_map comp_def transcript_missing_def example_row_def)
  have p: "csv_file_path cfg_backfill = ''data/scrapped_data.csv''"
    by (simp add: cfg_backfill_def CONFIG_def)
  have u: "[1..<Suc (25 div 10)] = [1, 2]" "[1..<Suc (9 div 10)] = []"
    "[1..<Suc (10 div 10)] = [1]" "[1..<Suc (19 div 10)] = [1]"
    "[1..<Suc (20 div 10)] = [1, 2]"
    by (simp_all add: upt_rec)
  have l: "length table25 = 25" by (simp add: table25_def)
  note t = backfill_checkpoints[OF 1 2 3 n, of world0, unfolded p]
  note a = t[THEN conjunct1, unfolded u]
  note b = t[THEN conjunct2, rule_format]
  have e: "events world0 = []" by (simp add: world0_def)
  have A: "\<exists>w' new.
      main_update_transcripts env0 cfg_backfill table25 world0 =
        (Inr (table_after env0 cfg_backfill table25 world0 25), w')
    \<and> events w' = events world0 @ new
    \<and> csv_writes new =
        [(''data/scrapped_data.csv'', table_after env0 cfg_backfill table25 world0 10),
         (''data/scrapped_data.csv'', table_after env0 cfg_backfill table25 world0 20),
         (''data/scrapped_data.csv'', table_after env0 cfg_backfill table25 world0 25)]
    \<and> length (csv_writes new) = 3
    \<and> files w' ''data/scrapped_data.csv'' =
        Some (table_after env0 cfg_backfill table25 world0 25)"
    using a by simp
  have B: "csv_writes (events (world_after env0 cfg_backfill table25 world0 9)) = []"
    using b[of 9, unfolded u] by (simp add: e)
  have C: "csv_writes (events (world_after env0 cfg_backfill table25 world0 10)) =
        [(''data/scrapped_data.csv'', table_after env0 cfg_backfill table25 world0 10)]"
    "files (world_after env0 cfg_backfill table25 world0 10) ''data/scrapped_data.csv'' =
        Some (table_after env0 cfg_backfill table25 world0 10)"
    "length (table_after env0 cfg_backfill table25 world0 10) = 25"
    using b[of 10, unfolded u] by (simp_all add: e l)
  have D: "csv_writes (events (world_after env0 cfg_backfill table25 world0 19)) =
        [(''data/scrapped_data.csv'', table_after env0 cfg_backfill table25 world0 10)]"
    using b[of 19, unfolded u] by (simp add: e)
  have E: "csv_writes (events (world_after env0 cfg_backfill table25 world0 20)) =
        [(''data/scrapped_data.csv'', table_after env0 cfg_backfill table25 world0 10),
         (''data/scrapped_data.csv'', table_after env0 cfg_backfill table25 world0 20)]"
    "files (world_after env0 cfg_backfill table25 world0 20) ''data/scrapped_data.csv'' =
        Some (table_after env0 cfg_backfill table25 world0 20)"
    using b[of 20, unfolded u] by (simp_all add: e)
  show ?thesis
    apply (intro conjI)
          apply (fact A)
         apply (fact B)
        apply (fact C(1))
       apply (fact C(2))
      apply (fact D)
     apply (fact E(1))
    apply (fact E(2))
    apply (fact C(3))
    done
qed

subsection \<open>New records\<close>

lemma fetch_loop_returns:
  assumes B: "0 < B" and ok: "\<forall>w b s. videos_list env w b \<noteq> Inl (Exception s)"
  shows "\<exists>res w'. fetch_loop env B (map PyStr ids) i r w = (Inr res, w')"
proof (induction "length ids - i" arbitrary: i r w rule: less_induct)
  case less
  show ?case
  proof (cases "length ids \<le> i")
    case True
    then show ?thesis by (subst fetch_loop.simps) simp
  next
    case False
    then have lt: "length ids - (i + B) < length ids - i" using B by simp
    note IH = less[OF lt]
    define batch where "batch = take B (drop i ids)"
    show ?thesis
    proof (cases "videos_list env w batch")
      case (Inr items)
      show ?thesis
        using False B Inr IH unfolding batch_def
        by (subst fetch_loop.simps) (simp add: Let_def take_map drop_map)
    next
      case (Inl e)
      then obtain status where e: "e = HttpError status"
        using ok by (cases e) auto
      show ?thesis
        using False B Inl e IH unfolding batch_def
        by (subst fetch_loop.simps) (simp add: Let_def take_map drop_map)
    qed
  qed
qed

lemma fetch_video_details_returns:
  assumes "0 < batch_size cfg" and "\<forall>w b s. videos_list env w b \<noteq> Inl (Exception s)"
  shows "\<exists>res w'. fetch_video_details env cfg (map PyStr ids) w = (Inr res, w')"
  using fetch_loop_returns[OF assms] assms(1) by (simp add: fetch_video_details_def)

lemma records_loop_result:
  "\<exists>news w'. records_loop env inc vd n xs recs w = (Inr (recs @ news), w')
      \<and> list_all2 (\<lambda>x r. \<exists>t l. r = (make_record vd (snd x))\<lparr>transcription := Some t,
                                                               detected_language := Some l\<rparr>)
           xs news"
proof (induction xs arbitrary: recs w)
  case Nil
  have "records_loop env inc vd n [] recs w = (Inr (recs @ []), w)
      \<and> list_all2 (\<lambda>x r. \<exists>t l. r = (make_record vd (snd x))\<lparr>transcription := Some t,
                                                               detected_language := Some l\<rparr>)
           [] []" by simp
  then show ?case by (intro exI)
next
  case (Cons a rest)
  obtain i video where a: "a = (i, video)" by (cases a)
  have "\<exists>t l w1. records_loop env inc vd n (a # rest) recs w =
          records_loop env inc vd n rest
            (recs @ [(make_record vd video)\<lparr>transcription := Some t,
                                             detected_language := Some l\<rparr>]) w1"
  proof (cases inc)
    case True
    define w1 where "w1 = logging_info (ProcessingTranscript (i + 1) n (videoId video)) w"
    obtain t l xs where
      g: "get_transcript_and_language env (videoId video) w1 =
            (Inr (t, l), w1\<lparr>events := events w1 @ xs\<rparr>)"
      using get_transcript_and_language_result[of env "videoId video" w1] by blast
    have "records_loop env inc vd n (a # rest) recs w =
          records_loop env inc vd n rest
            (recs @ [(make_record vd video)\<lparr>transcription := Some t,
                                             detected_language := Some l\<rparr>])
            (sleep 1 (w1\<lparr>events := events w1 @ xs\<rparr>))"
      using True g unfolding a w1_def by (simp add: Let_def)
    then show ?thesis by (intro exI)
  next
    case False
    have "make_record vd video =
            (make_record vd video)\<lparr>transcription := Some [], detected_language := Some []\<rparr>"
      by (simp add: make_record_def)
    then have "records_loop env inc vd n (a # rest) recs w =
          records_loop env inc vd n rest
            (recs @ [(make_record vd video)\<lparr>transcription := Some [],
                                             detected_language := Some []\<rparr>]) w"
      using False unfolding a by (simp add: Let_def)
    then show ?thesis by (intro exI)
  qed
  then obtain t l w1 where
    e: "records_loop env inc vd n (a # rest) recs w =
          records_loop env inc vd n rest
            (recs @ [(make_record vd video)\<lparr>transcription := Some t,
                                             detected_language := Some l\<rparr>]) w1"
    by blast
  define new where
    "new = (make_record vd video)\<lparr>transcription := Some t, detected_language := Some l\<rparr>"
  from Cons.IH[of "recs @ [new]" w1] obtain news w' where
    r: "records_loop env inc vd n rest (recs @ [new]) w1 = (Inr ((recs @ [new]) @ news), w')"
    and p: "list_all2 (\<lambda>x r. \<exists>t l. r = (make_record vd (snd x))\<lparr>transcription := Some t,
                                                               detected_language := Some l\<rparr>)
           rest news"
    by blast
  have A: "records_loop env inc vd n (a # rest) recs w = (Inr (recs @ (new # news)), w')"
    unfolding e new_def[symmetric] r by simp
  have "\<exists>t l. new = (make_record vd (snd a))\<lparr>transcription := Some t,
                                               detected_language := Some l\<rparr>"
    unfolding new_def a by auto
  with p have B: "list_all2 (\<lambda>x r. \<exists>t l. r = (make_record vd (snd x))\<lparr>transcription := Some t,
                                                               detected_language := Some l\<rparr>)
           (a # rest) (new # news)"
    by simp
  from A B show ?case by (intro exI conjI)
qed

lemma process_videos_records:
  assumes fetch: "fetch_video_details env cfg (map (\<lambda>video. PyStr (videoId video)) search_results) w =
                    (Inr detailed_videos, w1)"
  shows "\<exists>records w'. process_videos env cfg search_results include_transcripts w =
                         (Inr records, w')
           \<and> length records = length search_results
           \<and> (\<forall>k < length search_results.
                 video_id (records ! k) = PyStr (videoId (search_results ! k))
               \<and> video_url (records ! k) =
                   ''https://www.youtube.com/watch?v='' @ videoId (search_results ! k)
               \<and> (details_dict detailed_videos (videoId (search_results ! k)) = None \<longrightarrow>
                    view_count (records ! k) = None \<and> like_count (records ! k) = None
                  \<and> comment_count (records ! k) = None))"
proof (cases "search_results = []")
  case True
  then have "process_videos env cfg search_results include_transcripts w = (Inr [], w)
           \<and> length [] = length search_results
           \<and> (\<forall>k < length search_results.
                 video_id ([] ! k) = PyStr (videoId (search_results ! k))
               \<and> video_url ([] ! k) =
                   ''https://www.youtube.com/watch?v='' @ videoId (search_results ! k)
               \<and> (details_dict detailed_videos (videoId (search_results ! k)) = None \<longrightarrow>
                    view_count ([] ! k) = None \<and> like_count ([] ! k) = None
                  \<and> comment_count ([] ! k) = None))"
    by (simp add: process_videos_def)
  then show ?thesis by (intro exI)
next
  case False
  define vd where "vd = details_dict detailed_videos"
  from records_loop_result[of env include_transcripts vd "length search_results"
      "enumerate_list search_results" "[]" w1]
  obtain news w' where
    r: "records_loop env include_transcripts vd (length search_results)
          (enumerate_list search_results) [] w1 = (Inr news, w')"
    and p: "list_all2 (\<lambda>x r. \<exists>t l. r = (make_record vd (snd x))\<lparr>transcription := Some t,
                                                               detected_language := Some l\<rparr>)
           (enumerate_list search_results) news"
    by auto
  have A: "process_videos env cfg search_results include_transcripts w = (Inr news, w')"
    using False fetch r by (simp add: process_videos_def Let_def vd_def)
  have len: "length news = length search_results"
    using list_all2_lengthD[OF p] by (simp add: enumerate_list_def)
  have C: "\<forall>k < length search_results.
                 video_id (news ! k) = PyStr (videoId (search_results ! k))
               \<and> video_url (news ! k) =
                   ''https://www.youtube.com/watch?v='' @ videoId (search_results ! k)
               \<and> (details_dict detailed_videos (videoId (search_results ! k)) = None \<longrightarrow>
                    view_count (news ! k) = None \<and> like_count (news ! k) = None
                  \<and> comment_count (news ! k) = None)"
  proof (intro allI impI)
    fix k assume k: "k < length search_results"
    then have "k < length (enumerate_list search_results)" by (simp add: enumerate_list_def)
    from list_all2_nthD[OF p this] obtain t l where
      "news ! k = (make_record vd (snd (enumerate_list search_results ! k)))
                    \<lparr>transcription := Some t, detected_language := Some l\<rparr>" by blast
    moreover have "snd (enumerate_list search_results ! k) = search_results ! k"
      using k by (simp add: enumerate_list_def)
    ultimately have n: "news ! k = (make_record vd (search_results ! k))
                    \<lparr>transcription := Some t, detected_language := Some l\<rparr>" by simp
    show "video_id (news ! k) = PyStr (videoId (search_results ! k))
               \<and> video_url (news ! k) =
                   ''https://www.youtube.com/watch?v='' @ videoId (search_results ! k)
               \<and> (details_dict detailed_videos (videoId (search_results ! k)) = None \<longrightarrow>
                    view_count (news ! k) = None \<and> like_count (news ! k) = None
                  \<and> comment_count (news ! k) = None)"
      unfolding n by (simp add: make_record_def statistics_get_def vd_def)
  qed
  from A len C show ?thesis by (intro exI conjI)
qed


lemma search_two_pages:
  assumes p1: "\<forall>w' request. pageToken request = None \<longrightarrow>
                 search_list env w' request =
                   Inr \<lparr> search_items = page1, nextPageToken = Some tok \<rparr>"
    and tok: "tok \<noteq> []"
    and p2: "\<forall>w' request. pageToken request = Some tok \<longrightarrow>
                 search_list env w' request =
                   Inr \<lparr> search_items = page2, nextPageToken = None \<rparr>"
  shows "\<exists>w'. search_youtube_videos env cfg K (Suc (Suc fuel)) w =
               Some (filter (\<lambda>v. PyStr (videoId v) \<notin> K) page1 @
                     filter (\<lambda>v. PyStr (videoId v) \<notin> K) page2, w')"
  using tok by (simp add: search_youtube_videos_def Let_def p1 p2)

lemma main_two_pages:
  assumes key: "api_key env = Some k" "k \<noteq> []"
    and empty: "load_existing_data env (csv_file_path cfg) w = Inr []"
    and p1: "\<forall>w' request. pageToken request = None \<longrightarrow>
                 search_list env w' request =
                   Inr \<lparr> search_items = page1, nextPageToken = Some tok \<rparr>"
    and tok: "tok \<noteq> []"
    and p2: "\<forall>w' request. pageToken request = Some tok \<longrightarrow>
                 search_list env w' request =
                   Inr \<lparr> search_items = page2, nextPageToken = None \<rparr>"
    and B: "0 < batch_size cfg"
    and ok: "\<forall>w' b s. videos_list env w' b \<noteq> Inl (Exception s)"
    and saves_ok: "\<forall>df p w'. fst (save_data env df p w') = Inr ()"
  shows "\<exists>table w'. main env cfg (Suc (Suc fuel)) w = Some (Some table, w')
           \<and> length table = length page1 + length page2
           \<and> (\<forall>k < length table.
                 video_url (table ! k) =
                   ''https://www.youtube.com/watch?v='' @ videoId ((page1 @ page2) ! k))"
proof -
  define w1 where "w1 = logging_info (LoadedExisting 0) w"
  define sr where "sr = page1 @ page2"
  have init: "initialize_youtube_client env w = (Inr k, w)"
    using key by (simp add: initialize_youtube_client_def get_api_key_def)
  from search_two_pages[OF p1 tok p2, of cfg "{}" fuel "logging_info SearchingNew w1"]
  obtain w2 where
    s: "search_youtube_videos env cfg {} (Suc (Suc fuel)) (logging_info SearchingNew w1) =
          Some (sr, w2)"
    unfolding sr_def by auto
  have body: "main_body env cfg (Suc (Suc fuel)) w =
              main_search_and_append env cfg (Suc (Suc fuel)) {} [] w1"
    using init empty
    by (simp add: main_body_def Let_def main_update_existing_def main_update_transcripts_def
          w1_def)
  have "\<exists>table w'. main env cfg (Suc (Suc fuel)) w = Some (Some table, w')
           \<and> length table = length sr
           \<and> (\<forall>k < length table.
                 video_url (table ! k) = ''https://www.youtube.com/watch?v='' @ videoId (sr ! k))"
  proof (cases "sr = []")
    case True
    have "main env cfg (Suc (Suc fuel)) w = Some (Some [], logging_info NoNewVideos w2)"
      using True s by (simp add: main_def body main_search_and_append_def)
    then have "main env cfg (Suc (Suc fuel)) w = Some (Some [], logging_info NoNewVideos w2)
           \<and> length ([] :: table) = length sr
           \<and> (\<forall>k < length ([] :: table).
                 video_url ([] ! k) = ''https://www.youtube.com/watch?v='' @ videoId (sr ! k))"
      using True by simp
    then show ?thesis by (intro exI)
  next
    case False
    define w3 where "w3 = logging_info (ProcessingNew (length sr)) w2"
    from fetch_video_details_returns[OF B ok, of "map videoId sr" w3]
    obtain detailed w4 where
      f: "fetch_video_details env cfg (map (\<lambda>video. PyStr (videoId video)) sr) w3 =
            (Inr detailed, w4)"
      by (auto simp add: comp_def)
    from process_videos_records[OF f, of "fetch_transcripts cfg"]
    obtain records w5 where
      p: "process_videos env cfg sr (fetch_transcripts cfg) w3 = (Inr records, w5)"
      and len: "length records = length sr"
      and url: "\<forall>k < length sr.
                  video_url (records ! k) =
                    ''https://www.youtube.com/watch?v='' @ videoId (sr ! k)"
      by blast
    have ne: "records \<noteq> []" using len False by auto
    obtain u w6 where sv: "save_data env records (csv_file_path cfg) w5 = (u, w6)"
      by (cases "save_data env records (csv_file_path cfg) w5")
    have "fst (save_data env records (csv_file_path cfg) w5) = Inr ()"
      using saves_ok by blast
    then have u: "u = Inr ()" using sv by simp
    have A: "main env cfg (Suc (Suc fuel)) w =
            Some (Some records,
                  logging_info (AddedNew (length records) (length records)) w6)"
      using False s p ne sv u
      by (simp add: main_def body main_search_and_append_def w3_def[symmetric] Let_def)
    have U: "\<forall>k < length records.
                 video_url (records ! k) =
                   ''https://www.youtube.com/watch?v='' @ videoId (sr ! k)"
      using url len by simp
    from A len U show ?thesis by (intro exI conjI)
  qed
  then show ?thesis unfolding sr_def by simp
qed


text \<open>
  Claim C8. First part: when the details request returns, \<open>process_videos\<close> returns one
  record per search entry, in order; the record's URL is
  \<open>https://www.youtube.com/watch?v=\<close> followed by the entry's identifier, and its three
  counts are missing when the identifier is not a key of the details dictionary.
  Second part: on an empty table, with a search that serves a page of 50 entries and
  then a last page of 3, \<open>main\<close> returns a table of 53 rows, each with the URL of its entry.
\<close>

theorem new_video_records:
  "(fetch_video_details env cfg (map (\<lambda>video. PyStr (videoId video)) search_results) w = (Inr detailed_videos, w1) \<longrightarrow>
      (\<exists>records w'. process_videos env cfg search_results include_transcripts w =
                       (Inr records, w')
         \<and> length records = length search_results
         \<and> (\<forall>k < length search_results.
               video_id (records ! k) = PyStr (videoId (search_results ! k))
             \<and> video_url (records ! k) =
                 ''https://www.youtube.com/watch?v='' @ videoId (search_results ! k)
             \<and> (details_dict detailed_videos (videoId (search_results ! k)) = None \<longrightarrow>
                  view_count (records ! k) = None \<and> like_count (records ! k) = None
                \<and> comment_count (records ! k) = None))))
   \<and> (api_key env = Some key \<and> key \<noteq> []
      \<and> load_existing_data env (csv_file_path cfg) w = Inr []
      \<and> (\<forall>w' request. pageToken request = None \<longrightarrow>
             search_list env w' request =
               Inr \<lparr> search_items = page1, nextPageToken = Some tok \<rparr>)
      \<and> tok \<noteq> []
      \<and> (\<forall>w' request. pageToken request = Some tok \<longrightarrow>
             search_list env w' request =
               Inr \<lparr> search_items = page2, nextPageToken = None \<rparr>)
      \<and> length page1 = 50 \<and> length page2 = 3
      \<and> 0 < batch_size cfg
      \<and> (\<forall>w' b s. videos_list env w' b \<noteq> Inl (Exception s))
      \<and> (\<forall>df p w'. fst (save_data env df p w') = Inr ())
      \<longrightarrow>
      (\<exists>table w'. main env cfg (Suc (Suc fuel)) w = Some (Some table, w')
         \<and> length table = 53
         \<and> (\<forall>k < length table.
               video_url (table ! k) =
                 ''https://www.youtube.com/watch?v='' @ videoId ((page1 @ page2) ! k))))"
proof (intro conjI impI)
  assume "fetch_video_details env cfg (map (\<lambda>video. PyStr (videoId video)) search_results) w = (Inr detailed_videos, w1)"
  then show "\<exists>records w'. process_videos env cfg search_results include_transcripts w =
                       (Inr records, w')
         \<and> length records = length search_results
         \<and> (\<forall>k < length search_results.
               video_id (records ! k) = PyStr (videoId (search_results ! k))
             \<and> video_url (records ! k) =
                 ''https://www.youtube.com/watch?v='' @ videoId (search_results ! k)
             \<and> (details_dict detailed_videos (videoId (search_results ! k)) = None \<longrightarrow>
                  view_count (records ! k) = None \<and> like_count (records ! k) = None
                \<and> comment_count (records ! k) = None))"
    by (rule process_videos_records)
next
  assume h: "api_key env = Some key \<and> key \<noteq> []
      \<and> load_existing_data env (csv_file_path cfg) w = Inr []
      \<and> (\<forall>w' request. pageToken request = None \<longrightarrow>
             search_list env w' request =
               Inr \<lparr> search_items = page1, nextPageToken = Some tok \<rparr>)
      \<and> tok \<noteq> []
      \<and> (\<forall>w' request. pageToken request = Some tok \<longrightarrow>
             search_list env w' request =
               Inr \<lparr> search_items = page2, nextPageToken = None \<rparr>)
      \<and> length page1 = 50 \<and> length page2 = 3
      \<and> 0 < batch_size cfg
      \<and> (\<forall>w' b s. videos_list env w' b \<noteq> Inl (Exception s))
      \<and> (\<forall>df p w'. fst (save_data env df p w') = Inr ())"
  then have len: "length page1 + length page2 = 53" by simp
  from h have
    "\<exists>table w'. main env cfg (Suc (Suc fuel)) w = Some (Some table, w')
           \<and> length table = length page1 + length page2
           \<and> (\<forall>k < length table.
                 video_url (table ! k) =
                   ''https://www.youtube.com/watch?v='' @ videoId ((page1 @ page2) ! k))"
    by (intro main_two_pages) blast+
  then show "\<exists>table w'. main env cfg (Suc (Suc fuel)) w = Some (Some table, w')
         \<and> length table = 53
         \<and> (\<forall>k < length table.
               video_url (table ! k) =
                 ''https://www.youtube.com/watch?v='' @ videoId ((page1 @ page2) ! k))"
    unfolding len .
qed

theorem new_video_records_witness:
  "(\<exists>records w'. process_videos env_details_a CONFIG [mk_item ''a'', mk_item ''b''] True world0 =
                    (Inr records, w')
      \<and> length records = 2
      \<and> video_url (records ! 1) = ''https://www.youtube.com/watch?v=b''
      \<and> view_count (records ! 1) = None \<and> like_count (records ! 1) = None
      \<and> comment_count (records ! 1) = None)
   \<and> (\<exists>table w'. main env_fifty_three CONFIG 2 world0 = Some (Some table, w')
         \<and> length table = 53
         \<and> video_url (table ! 0) = ''https://www.youtube.com/watch?v=v0''
         \<and> video_url (table ! 52) = ''https://www.youtube.com/watch?v=v52'')"
proof
  have "\<exists>w1. fetch_video_details env_details_a CONFIG
               (map (\<lambda>video. PyStr (videoId video)) [mk_item ''a'', mk_item ''b'']) world0 = (Inr [detail_a], w1)"
    by (simp add: fetch_video_details_def fetch_loop.simps CONFIG_def env_details_a_def
          env0_def Let_def mk_item_def)
  then obtain w1 where
    f: "fetch_video_details env_details_a CONFIG
          (map (\<lambda>video. PyStr (videoId video)) [mk_item ''a'', mk_item ''b'']) world0 = (Inr [detail_a], w1)"
    by blast
  from new_video_records[of env_details_a CONFIG "[mk_item ''a'', mk_item ''b'']" world0
      "[detail_a]" w1 True] f
  obtain records w' where
    p: "process_videos env_details_a CONFIG [mk_item ''a'', mk_item ''b''] True world0 =
          (Inr records, w')"
    and len: "length records = length [mk_item ''a'', mk_item ''b'']"
    and all: "\<forall>k < length [mk_item ''a'', mk_item ''b''].
               video_id (records ! k) = PyStr (videoId ([mk_item ''a'', mk_item ''b''] ! k))
             \<and> video_url (records ! k) =
                 ''https://www.youtube.com/watch?v='' @ videoId ([mk_item ''a'', mk_item ''b''] ! k)
             \<and> (details_dict [detail_a] (videoId ([mk_item ''a'', mk_item ''b''] ! k)) = None \<longrightarrow>
                  view_count (records ! k) = None \<and> like_count (records ! k) = None
                \<and> comment_count (records ! k) = None)"
    by blast
  from all have
    "video_url (records ! 1) = ''https://www.youtube.com/watch?v=b''
      \<and> view_count (records ! 1) = None \<and> like_count (records ! 1) = None
      \<and> comment_count (records ! 1) = None"
    by (simp add: mk_item_def details_dict_def detail_a_def)
  with p len show
    "\<exists>records w'. process_videos env_details_a CONFIG [mk_item ''a'', mk_item ''b''] True world0 =
                    (Inr records, w')
      \<and> length records = 2
      \<and> video_url (records ! 1) = ''https://www.youtube.com/watch?v=b''
      \<and> view_count (records ! 1) = None \<and> like_count (records ! 1) = None
      \<and> comment_count (records ! 1) = None"
    by auto
next
  have h: "api_key env_fifty_three = Some ''KEY'' \<and> ''KEY'' \<noteq> []
      \<and> load_existing_data env_fifty_three (csv_file_path CONFIG) world0 = Inr []
      \<and> (\<forall>w' request. pageToken request = None \<longrightarrow>
             search_list env_fifty_three w' request =
               Inr \<lparr> search_items = page_one, nextPageToken = Some ''PAGE2'' \<rparr>)
      \<and> ''PAGE2'' \<noteq> []
      \<and> (\<forall>w' request. pageToken request = Some ''PAGE2'' \<longrightarrow>
             search_list env_fifty_three w' request =
               Inr \<lparr> search_items = page_two, nextPageToken = None \<rparr>)
      \<and> length page_one = 50 \<and> length page_two = 3
      \<and> 0 < batch_size CONFIG
      \<and> (\<forall>w' b s. videos_list env_fifty_three w' b \<noteq> Inl (Exception s))
      \<and> (\<forall>df p w'. fst (save_data env_fifty_three df p w') = Inr ())"
    by (simp add: env_fifty_three_def env0_def load_existing_data_def world0_def CONFIG_def
          save_data_unfold page_one_def page_two_def dirname_def)
  from new_video_records[of env_fifty_three CONFIG "[]" world0 "[]" world0 True "''KEY''"
      page_one "''PAGE2''" page_two 0, THEN conjunct2, THEN mp, OF h]
  obtain table w' where
    m: "main env_fifty_three CONFIG (Suc (Suc 0)) world0 = Some (Some table, w')"
    and len: "length table = 53"
    and url: "\<forall>k < length table.
               video_url (table ! k) =
                 ''https://www.youtube.com/watch?v='' @ videoId ((page_one @ page_two) ! k)"
    by blast
  have first: "videoId ((page_one @ page_two) ! 0) = ''v0''"
    by (simp add: page_one_def nth_append mk_item_def str_of_nat.simps del: upt_Suc)
  have last: "videoId ((page_one @ page_two) ! 52) = ''v52''"
    by (simp add: page_one_def page_two_def nth_append mk_item_def str_of_nat.simps
          del: upt_Suc)
  have "video_url (table ! 0) = ''https://www.youtube.com/watch?v=v0''"
    "video_url (table ! 52) = ''https://www.youtube.com/watch?v=v52''"
    using url len first last by simp_all
  with m len show
    "\<exists>table w'. main env_fifty_three CONFIG 2 world0 = Some (Some table, w')
         \<and> length table = 53
         \<and> video_url (table ! 0) = ''https://www.youtube.com/watch?v=v0''
         \<and> video_url (table ! 52) = ''https://www.youtube.com/watch?v=v52''"
    unfolding numeral_2_eq_2 by blast
qed

subsection \<open>A run that finds nothing new\<close>

text \<open>
  A run with the refresh and the backfill switched off, a table that loads, and a
  search whose answers are a script that ends: when the search keeps no entry, the run
  returns the loaded table and writes no file.
\<close>

lemma main_search_only:
  assumes flags: "\<not> update_existing cfg" "\<not> update_transcripts cfg"
    and key: "api_key env = Some k" "k \<noteq> []"
    and loaded: "load_existing_data env (csv_file_path cfg) w = Inr existing_data"
    and script: "\<forall>w' request j. j < length (pre @ [final]) \<longrightarrow>
                   length (search_outcomes (events w')) =
                     length (search_outcomes (events w)) + j \<longrightarrow>
                   search_list env w' request = (pre @ [final]) ! j"
    and pre: "\<forall>out \<in> set pre. continues out" and final: "\<not> continues final"
    and fuel: "length pre < fuel"
    and known: "filter (\<lambda>v. PyStr (videoId v) \<notin> set (map video_id existing_data))
                  (concat (map page_items (pre @ [final]))) = []"
  shows "\<exists>w' new. main env cfg fuel w = Some (Some existing_data, w')
           \<and> files w' = files w
           \<and> events w' = events w @ new
           \<and> search_outcomes new = pre @ [final]"
proof -
  define K where "K = set (map video_id existing_data)"
  define w1 where "w1 = logging_info (LoadedExisting (length existing_data)) w"
  define ws where "ws = logging_info SearchingNew w1"
  have init: "initialize_youtube_client env w = (Inr k, w)"
    using key by (simp add: initialize_youtube_client_def get_api_key_def)
  have body: "main_body env cfg fuel w =
              main_search_and_append env cfg fuel K existing_data w1"
    using init flags loaded
    by (simp add: main_body_def Let_def main_update_existing_def main_update_transcripts_def
          w1_def K_def)
  have so: "search_outcomes (events ws) = search_outcomes (events w)"
    by (simp add: ws_def w1_def logging_info_def emit_def)
  have evs: "events ws = events w @ [Log INFO (LoadedExisting (length existing_data)),
                                      Log INFO SearchingNew]"
    by (simp add: ws_def w1_def logging_info_def emit_def)
  have script': "\<forall>w' request j. j < length (pre @ [final]) \<longrightarrow>
                   length (search_outcomes (events w')) =
                     length (search_outcomes (events ws)) + j \<longrightarrow>
                   search_list env w' request = (pre @ [final]) ! j"
    unfolding so by (rule script)
  from search_loop_script[OF script' pre final fuel, of cfg K "[]" None 0]
  obtain w2 new where
    s: "search_loop env cfg K fuel [] None 0 ws =
          Some ([] @ filter (\<lambda>v. PyStr (videoId v) \<notin> K)
                       (concat (map page_items (pre @ [final]))), w2)"
    and ev2: "events w2 = events ws @ new"
    and so2: "search_outcomes new = pre @ [final]"
    by (elim exE conjE) (rule that, assumption+)
  have s': "search_youtube_videos env cfg K fuel ws = Some ([], w2)"
    unfolding search_youtube_videos_def s using known by (simp add: K_def)
  from search_loop_result[OF s'[unfolded search_youtube_videos_def]]
  have f2: "files w2 = files ws" by simp
  have "main env cfg fuel w = Some (Some existing_data, logging_info NoNewVideos w2)
           \<and> files (logging_info NoNewVideos w2) = files w
           \<and> events (logging_info NoNewVideos w2) =
               events w @ ([Log INFO (LoadedExisting (length existing_data)),
                            Log INFO SearchingNew] @ new @ [Log INFO NoNewVideos])
           \<and> search_outcomes ([Log INFO (LoadedExisting (length existing_data)),
                            Log INFO SearchingNew] @ new @ [Log INFO NoNewVideos]) =
               pre @ [final]"
    using s'[unfolded ws_def]
    by (simp add: main_def body main_search_and_append_def f2 ws_def w1_def ev2 evs so2
          logging_info_def emit_def)
  then show ?thesis by (intro exI)
qed

text \<open>
  Claim C9, as stated, fails. Re-running the pipeline with no new matching videos does
  not leave the table identical when one of the two update phases is switched on. With
  the backfill on, a run whose search returns no entry at all still fetches the
  transcript of a row marked \<open>"Video Error"\<close>, returns a table that is not the loaded one
  and writes it to the file. With the refresh on, a run whose search returns no entry
  overwrites the counts of a row with the counts the statistics endpoint reports now,
  returns that table and writes it to the file.
\<close>

theorem main_rerun_changes_table_counterexample:
  "load_existing_data env_detect_fails (csv_file_path cfg_backfill) world_video_error =
       Inr [example_row ''c'' (Some ''Video Error'')]
   \<and> main env_detect_fails cfg_backfill 1 world_video_error \<noteq> None
   \<and> search_returned
         (events (snd (the (main env_detect_fails cfg_backfill 1 world_video_error)))) = []
   \<and> fst (the (main env_detect_fails cfg_backfill 1 world_video_error)) =
       Some [(example_row ''c'' (Some ''Video Error''))
               \<lparr>transcription := Some ''hello world'', detected_language := Some ''unknown''\<rparr>]
   \<and> fst (the (main env_detect_fails cfg_backfill 1 world_video_error)) \<noteq>
       Some [example_row ''c'' (Some ''Video Error'')]
   \<and> files (snd (the (main env_detect_fails cfg_backfill 1 world_video_error)))
         (csv_file_path cfg_backfill) =
       Some [(example_row ''c'' (Some ''Video Error''))
               \<lparr>transcription := Some ''hello world'', detected_language := Some ''unknown''\<rparr>]
   \<and> files world_video_error (csv_file_path cfg_backfill) =
       Some [example_row ''c'' (Some ''Video Error'')]
   \<and> load_existing_data env_details_a (csv_file_path cfg_refresh) world_known =
       Inr [example_row ''a'' (Some ''ready'')]
   \<and> main env_details_a cfg_refresh 1 world_known \<noteq> None
   \<and> search_returned
         (events (snd (the (main env_details_a cfg_refresh 1 world_known)))) = []
   \<and> fst (the (main env_details_a cfg_refresh 1 world_known)) =
       Some [(example_row ''a'' (Some ''ready''))
               \<lparr>view_count := Some ''7'', like_count := Some ''1''\<rparr>]
   \<and> fst (the (main env_details_a cfg_refresh 1 world_known)) \<noteq>
       Some [example_row ''a'' (Some ''ready'')]
   \<and> files (snd (the (main env_details_a cfg_refresh 1 world_known)))
         (csv_file_path cfg_refresh) =
       Some [(example_row ''a'' (Some ''ready''))
               \<lparr>view_count := Some ''7'', like_count := Some ''1''\<rparr>]
   \<and> files world_known (csv_file_path cfg_refresh) =
       Some [example_row ''a'' (Some ''ready'')]"
  by (simp add: main_def main_body_def initialize_youtube_client_def get_api_key_def
        load_existing_data_def main_update_existing_def main_update_transcripts_def
        update_missing_transcripts_def enumerate_list_def transcript_missing_def
        get_transcript_and_language_def transcript_arg_def
        update_existing_stats_def update_stats_row_def details_dict_def statistics_get_def
        fetch_video_details_def fetch_loop.simps detail_a_def
        save_data_unfold main_search_and_append_def search_youtube_videos_def Let_def
        cfg_backfill_def cfg_refresh_def CONFIG_def env_detect_fails_def env_details_a_def
        env0_def world_video_error_def world_known_def example_row_def
        emit_def logging_info_def sleep_def dirname_def read_back_def empty_cell_def
        is_digits_def)

text \<open>
  Claim C9, amended. Let the statistics refresh and the transcript backfill be switched
  off (as in the shipped configuration), the API key be present, and the table load
  without error. Let the search endpoint answer the requests of the run by a script of
  answers of which the last one, and no earlier one, makes the paginator return, let
  there be at least as many requests allowed as the script is long, and let every
  entry of the script's pages have an identifier that is a value of the \<open>video_id\<close>
  column of the loaded table. Then \<open>main\<close> returns, its result is the loaded table, and
  every file is what it was before the run; the answers it received are the script.

  The identifiers are compared as Python values: an identifier of the search is a
  string, and a table whose \<open>video_id\<close> column was read back as integers has no value
  equal to it. Such a run is not covered here.
\<close>

theorem main_nothing_new:
  assumes "\<not> update_existing cfg" and "\<not> update_transcripts cfg"
    and "api_key env = Some k" and "k \<noteq> []"
    and "load_existing_data env (csv_file_path cfg) w = Inr existing_data"
    and "\<forall>w' request j. j < length outs \<longrightarrow>
           length (search_outcomes (events w')) = length (search_outcomes (events w)) + j \<longrightarrow>
           search_list env w' request = outs ! j"
    and "outs = pre @ [final]"
    and "\<forall>out \<in> set pre. continues out" and "\<not> continues final"
    and "length outs \<le> fuel"
    and "\<forall>v \<in> set (concat (map page_items outs)).
           PyStr (videoId v) \<in> video_id ` set existing_data"
  shows "\<exists>w' new. main env cfg fuel w = Some (Some existing_data, w')
           \<and> files w' = files w
           \<and> events w' = events w @ new
           \<and> search_outcomes new = outs"
proof -
  have fuel: "length pre < fuel" using assms(7,10) by simp
  have known: "filter (\<lambda>v. PyStr (videoId v) \<notin> set (map video_id existing_data))
                  (concat (map page_items (pre @ [final]))) = []"
    using assms(11) unfolding assms(7) filter_empty_conv by simp
  show ?thesis
    unfolding assms(7)
    by (rule main_search_only[OF assms(1-5) assms(6)[unfolded assms(7)] assms(8,9) fuel known])
qed

theorem main_nothing_new_witness:
  "\<exists>w' new. main env_known CONFIG 1 world_known =
               Some (Some [example_row ''a'' (Some ''ready'')], w')
           \<and> files w' = files world_known
           \<and> events w' = events world_known @ new
           \<and> search_outcomes new =
               [Inr \<lparr> search_items = [mk_item ''a''], nextPageToken = None \<rparr>]"
proof -
  have 1: "\<not> update_existing CONFIG" "\<not> update_transcripts CONFIG"
    by (simp_all add: CONFIG_def)
  have 2: "api_key env_known = Some ''KEY''" "''KEY'' \<noteq> []"
    by (simp_all add: env_known_def env0_def)
  have 3: "load_existing_data env_known (csv_file_path CONFIG) world_known =
             Inr [example_row ''a'' (Some ''ready'')]"
    by (simp add: load_existing_data_def env_known_def env0_def world_known_def CONFIG_def
          dirname_def read_back_def empty_cell_def is_digits_def example_row_def)
  have 4: "\<forall>w' request j.
             j < length [Inr \<lparr> search_items = [mk_item ''a''], nextPageToken = None \<rparr>] \<longrightarrow>
             length (search_outcomes (events w')) =
               length (search_outcomes (events world_known)) + j \<longrightarrow>
             search_list env_known w' request =
               [Inr \<lparr> search_items = [mk_item ''a''], nextPageToken = None \<rparr>] ! j"
    by (simp add: env_known_def)
  have 5: "[Inr \<lparr> search_items = [mk_item ''a''], nextPageToken = None \<rparr>] =
             [] @ [Inr \<lparr> search_items = [mk_item ''a''], nextPageToken = None \<rparr>]"
    by simp
  have 6: "\<forall>out \<in> set ([] :: (exn + search_response) list). continues out" by simp
  have 7: "\<not> continues (Inr \<lparr> search_items = [mk_item ''a''], nextPageToken = None \<rparr>)"
    by simp
  have 8: "length [Inr \<lparr> search_items = [mk_item ''a''], nextPageToken = None \<rparr> ::
                     exn + search_response] \<le> 1"
    by simp
  have 9: "\<forall>v \<in> set (concat (map page_items
                  [Inr \<lparr> search_items = [mk_item ''a''], nextPageToken = None \<rparr>])).
             PyStr (videoId v) \<in> video_id ` set [example_row ''a'' (Some ''ready'')]"
    by (simp add: mk_item_def example_row_def)
  show ?thesis
    by (rule main_nothing_new[OF 1 2 3 4 5 6 7 8 9])
qed

text \<open>
  What the amended statement leaves out. A table whose identifiers are all made of
  digits is read back with integer identifiers, the string identifier of the search
  equals none of them, and the video is taken for a new one: under the shipped
  configuration the run appends a second row for it and rewrites the file.
\<close>

lemma main_digit_ids_appended_again:
  "load_existing_data env_digit_id (csv_file_path CONFIG) world_digit_id =
       Inr [(example_row ''12345678901'' (Some ''ready''))\<lparr>video_id := PyInt 12345678901\<rparr>]
   \<and> main env_digit_id CONFIG 1 world_digit_id \<noteq> None
   \<and> map_option (map video_id) (fst (the (main env_digit_id CONFIG 1 world_digit_id))) =
       Some [PyInt 12345678901, PyStr ''12345678901'']
   \<and> map_option (map video_id)
         (files (snd (the (main env_digit_id CONFIG 1 world_digit_id))) (csv_file_path CONFIG)) =
       Some [PyInt 12345678901, PyStr ''12345678901'']"
  by (simp add: main_def main_body_def initialize_youtube_client_def get_api_key_def
        load_existing_data_def main_update_existing_def main_update_transcripts_def
        process_videos_def make_record_def mk_item_def no_statistics_def
        get_transcript_and_language_def enumerate_list_def
        details_dict_def statistics_get_def
        fetch_video_details_def fetch_loop.simps
        save_data_unfold main_search_and_append_def search_youtube_videos_def Let_def
        CONFIG_def env_digit_id_def
        env0_def world_digit_id_def example_row_def
        emit_def logging_info_def logging_error_def sleep_def dirname_def read_back_def
        empty_cell_def is_digits_def int_of_digits_def)


end
